theory Spec2Isabelle
  imports Complex_Main "HOL-Library.AList"
begin

section \<open>Python values and exceptions\<close>

text \<open>
  The components run under Python 2 (\<^verbatim>\<open>has_key\<close>, \<^verbatim>\<open>reload\<close>). A Python float is
  modelled by an exact rational or one of the three special values; rounding is not
  modelled, so the arithmetic below is the exact arithmetic that the floats approximate,
  and a decimal literal keeps its exact value whatever its size.
\<close>

datatype pyfloat = Fin rat | PosInf | NegInf | NaN

datatype pyval =
    PNone
  | PStr string
  | PInt int
  | PFloat pyfloat
  | PDict "(string \<times> pyval) list"
  | PObj nat

datatype error =
  ValueError | TypeError | KeyError | IndexError | AttributeError | SystemError
  | OverflowError | OtherError

section \<open>Characters and strings\<close>

definition squote :: char where
  "squote = CHR 0x27"

definition dquote :: char where
  "dquote = CHR 0x22"

definition is_digit :: "char \<Rightarrow> bool" where
  "is_digit c = (c \<in> set ''0123456789'')"

definition is_space :: "char \<Rightarrow> bool" where
  "is_space c = (c \<in> set [CHR '' '', CHR 0x09, CHR 0x0A, CHR 0x0B, CHR 0x0C, CHR 0x0D])"

definition upper_char :: "char \<Rightarrow> char" where
  "upper_char c =
     (case map_of (zip ''abcdefghijklmnopqrstuvwxyz'' ''ABCDEFGHIJKLMNOPQRSTUVWXYZ'') c of
        Some u \<Rightarrow> u
      | None \<Rightarrow> c)"

definition upper :: "string \<Rightarrow> string" where
  "upper s = map upper_char s"

definition py_strip :: "string \<Rightarrow> string" where
  "py_strip s = rev (dropWhile is_space (rev (dropWhile is_space s)))"

text \<open>\<^verbatim>\<open>p in s\<close> on strings: \<open>p\<close> occurs in \<open>s\<close> as a contiguous substring.\<close>

fun starts_with :: "string \<Rightarrow> string \<Rightarrow> bool" where
  "starts_with [] s = True"
| "starts_with (p # ps) [] = False"
| "starts_with (p # ps) (c # cs) = (p = c \<and> starts_with ps cs)"

fun py_in :: "string \<Rightarrow> string \<Rightarrow> bool" where
  "py_in p [] = (p = [])"
| "py_in p (c # cs) = (starts_with p (c # cs) \<or> py_in p cs)"

section \<open>The builtin float()\<close>

definition digit_val :: "char \<Rightarrow> nat" where
  "digit_val c = (case map_of (zip ''0123456789'' [0, 1, 2, 3, 4, 5, 6, 7, 8, 9]) c of
                    Some d \<Rightarrow> d
                  | None \<Rightarrow> 0)"

definition digits_val :: "string \<Rightarrow> nat" where
  "digits_val ds = foldl (\<lambda>n c. 10 * n + digit_val c) 0 ds"

text \<open>The exponent part of a literal: empty, or \<^verbatim>\<open>e\<close>, an optional sign and digits.\<close>

definition parse_exp :: "string \<Rightarrow> int option" where
  "parse_exp s =
     (case s of
        [] \<Rightarrow> Some 0
      | c # r \<Rightarrow>
          if c = CHR ''e'' \<or> c = CHR ''E'' then
            (let neg = (r \<noteq> [] \<and> hd r = CHR ''-'');
                 ds = (if r \<noteq> [] \<and> (hd r = CHR ''-'' \<or> hd r = CHR ''+'') then tl r else r)
             in if ds \<noteq> [] \<and> list_all is_digit ds
                then Some (if neg then - int (digits_val ds) else int (digits_val ds))
                else None)
          else None)"

definition scale10 :: "rat \<Rightarrow> int \<Rightarrow> rat" where
  "scale10 r e = (if 0 \<le> e then r * 10 ^ nat e else r / 10 ^ nat (- e))"

text \<open>An unsigned decimal literal: digits, an optional period with digits, at least one
  digit in all, and an optional exponent.\<close>

definition parse_decimal :: "string \<Rightarrow> rat option" where
  "parse_decimal s =
     (let ip = takeWhile is_digit s;
          r1 = dropWhile is_digit s;
          has_dot = (r1 \<noteq> [] \<and> hd r1 = CHR ''.'');
          fp = (if has_dot then takeWhile is_digit (tl r1) else []);
          r2 = (if has_dot then dropWhile is_digit (tl r1) else r1)
      in if ip = [] \<and> fp = [] then None
         else (case parse_exp r2 of
                 None \<Rightarrow> None
               | Some e \<Rightarrow>
                   Some (scale10 (of_nat (digits_val ip)
                                  + of_nat (digits_val fp) / 10 ^ length fp) e)))"

text \<open>\<^verbatim>\<open>float(s)\<close> for a string: surrounding whitespace is stripped, then an optional
  sign, then \<^verbatim>\<open>inf\<close>, \<^verbatim>\<open>infinity\<close> or \<^verbatim>\<open>nan\<close> in any case, or a decimal literal.
  Anything else raises ValueError.\<close>

definition float_of_string :: "string \<Rightarrow> error + pyfloat" where
  "float_of_string s =
     (let t = py_strip s;
          neg = (t \<noteq> [] \<and> hd t = CHR ''-'');
          body = (if t \<noteq> [] \<and> (hd t = CHR ''-'' \<or> hd t = CHR ''+'') then tl t else t)
      in if upper body = ''INF'' \<or> upper body = ''INFINITY''
         then Inr (if neg then NegInf else PosInf)
         else if upper body = ''NAN'' then Inr NaN
         else (case parse_decimal body of
                 None \<Rightarrow> Inl ValueError
               | Some r \<Rightarrow> Inr (Fin (if neg then - r else r))))"

text \<open>An integer that rounds to a double beyond the largest one has no float:
  \<^verbatim>\<open>float(10**400)\<close> raises OverflowError. The largest double is \<open>2^1024 - 2^971\<close>, and
  rounding to nearest even reaches beyond it from \<open>2^1024 - 2^970\<close> on.\<close>

definition float_overflows :: "int \<Rightarrow> bool" where
  "float_overflows i = (2 ^ 1024 - 2 ^ 970 \<le> \<bar>i\<bar>)"

fun py_float :: "pyval \<Rightarrow> error + pyfloat" where
  "py_float (PStr s) = float_of_string s"
| "py_float (PInt i) = (if float_overflows i then Inl OverflowError else Inr (Fin (of_int i)))"
| "py_float (PFloat f) = Inr f"
| "py_float PNone = Inl TypeError"
| "py_float (PDict d) = Inl TypeError"
| "py_float (PObj a) = Inl TypeError"

fun fmul :: "pyfloat \<Rightarrow> pyfloat \<Rightarrow> pyfloat" where
  "fmul (Fin a) (Fin b) = Fin (a * b)"
| "fmul NaN y = NaN"
| "fmul x NaN = NaN"
| "fmul (Fin a) PosInf = (if a = 0 then NaN else if 0 < a then PosInf else NegInf)"
| "fmul (Fin a) NegInf = (if a = 0 then NaN else if 0 < a then NegInf else PosInf)"
| "fmul PosInf (Fin b) = (if b = 0 then NaN else if 0 < b then PosInf else NegInf)"
| "fmul NegInf (Fin b) = (if b = 0 then NaN else if 0 < b then NegInf else PosInf)"
| "fmul PosInf PosInf = PosInf"
| "fmul PosInf NegInf = NegInf"
| "fmul NegInf PosInf = NegInf"
| "fmul NegInf NegInf = PosInf"

section \<open>helpers.py: the unit converter\<close>

text \<open>\<^verbatim>\<open>find_input_string\<close>; the argument is \<^verbatim>\<open>str(_in)\<close>. The branches are kept in
  the order of the source, the \<^verbatim>\<open>FT3\<close> branch included.\<close>

definition find_input_string :: "string \<Rightarrow> string" where
  "find_input_string s =
     (let evalString = upper s
      in if py_in ''FT'' evalString \<or> py_in [squote] evalString then ''FT''
         else if py_in ''IN'' evalString \<or> py_in [dquote] evalString then ''IN''
         else if py_in ''MM'' evalString then ''MM''
         else if py_in ''CM'' evalString then ''CM''
         else if py_in ''M'' evalString \<and> \<not> py_in ''MM'' evalString then ''M''
         else if py_in ''IP'' evalString then ''IP''
         else if py_in ''FT3'' evalString then ''FT3''
         else ''SI'')"

definition schema :: "(string \<times> (string \<times> rat) list) list" where
  "schema =
     [(''M'', [(''SI'', 1), (''M'', 1), (''CM'', 0.01), (''MM'', 0.001), (''FT'', 0.3048),
               ([squote], 0.3048), (''IN'', 0.0254), ([dquote], 0.0254)]),
      (''CM'', [(''SI'', 1), (''M'', 100), (''CM'', 1), (''MM'', 0.1), (''FT'', 30.48),
                ([squote], 30.48), (''IN'', 2.54), ([dquote], 2.54)]),
      (''MM'', [(''SI'', 1), (''M'', 1000), (''CM'', 10), (''MM'', 1), (''FT'', 304.8),
                ([squote], 304.8), (''IN'', 25.4), ([dquote], 25.4)]),
      (''W/M2K'', [(''SI'', 1), (''IP'', 5.678264134)]),
      (''W/MK'', [(''SI'', 1), (''IP'', 1.730734908)]),
      (''M3'', [(''SI'', 1), (''FT3'', 0.028316847)])]"

text \<open>\<^verbatim>\<open>schema.get(_outputUnit, {}).get(inputUnit, 1)\<close>\<close>

definition conversionFactor :: "string \<Rightarrow> string \<Rightarrow> rat" where
  "conversionFactor outputUnit inputUnit =
     (case map_of schema outputUnit of
        None \<Rightarrow> 1
      | Some row \<Rightarrow> (case map_of row inputUnit of None \<Rightarrow> 1 | Some f \<Rightarrow> f))"

text \<open>\<^verbatim>\<open>re.split(r'[^\d\.]', s)\<close>: the string is cut at every character that is neither
  a digit nor a period; the pieces between the cuts are returned, empty ones included.\<close>

definition is_sep :: "char \<Rightarrow> bool" where
  "is_sep c = (\<not> is_digit c \<and> c \<noteq> CHR ''.'')"

fun re_split :: "string \<Rightarrow> string list" where
  "re_split [] = [[]]"
| "re_split (c # cs) =
     (if is_sep c then [] # re_split cs
      else (c # hd (re_split cs)) # tl (re_split cs))"

text \<open>The loop over the pieces: the first non-empty piece replaces \<^verbatim>\<open>inputValue\<close>.\<close>

fun first_nonempty :: "string list \<Rightarrow> string option" where
  "first_nonempty [] = None"
| "first_nonempty (p # ps) = (if length p > 0 then Some p else first_nonempty ps)"

text \<open>The body of the inner \<^verbatim>\<open>try\<close>: the value of \<^verbatim>\<open>inputValue\<close> when the body ends,
  and what the body did (raised, or returned a value).\<close>

definition convert_inner :: "pyval \<Rightarrow> string \<Rightarrow> pyval \<times> (error + pyval)" where
  "convert_inner inputString outputUnit =
     (case inputString of
        PStr s \<Rightarrow>
          (let inputValue = (case first_nonempty (re_split s) of
                               Some each \<Rightarrow> PStr each
                             | None \<Rightarrow> inputString);
               inputUnit = find_input_string s;
               factor = conversionFactor outputUnit inputUnit
           in (inputValue,
               (case py_float inputValue of
                  Inl e \<Rightarrow> Inl e
                | Inr f \<Rightarrow> Inr (PFloat (fmul f (Fin factor))))))
      | _ \<Rightarrow> (inputString, Inl TypeError))"

definition convert_value_to_metric :: "pyval \<Rightarrow> string \<Rightarrow> error + pyval" where
  "convert_value_to_metric inputString outputUnit =
     (if inputString = PNone then Inr PNone
      else (case py_float inputString of
              Inr f \<Rightarrow> Inr (PFloat f)
            | Inl e \<Rightarrow>
                (case convert_inner inputString outputUnit of
                   (inputValue, Inl e') \<Rightarrow> Inr inputValue
                 | (inputValue, Inr r) \<Rightarrow> Inr r)))"

text \<open>The first maximal run of digit and period characters of a string, if there is
  one: what the claims call the numeric substring.\<close>

definition first_numeric_run :: "string \<Rightarrow> string option" where
  "first_numeric_run s =
     (let t = dropWhile is_sep s
      in if t = [] then None else Some (takeWhile (\<lambda>c. \<not> is_sep c) t))"

section \<open>helpers.py: writing to the user data of a Honeybee object\<close>

text \<open>A Honeybee object as far as the code reads it: its display name and its user data
  (None or a dict). \<^verbatim>\<open>deepcopy\<close> is the identity on values.\<close>

record hb_obj =
  display_name :: string
  user_data :: pyval

fun py_truthy :: "pyval \<Rightarrow> bool" where
  "py_truthy PNone = False"
| "py_truthy (PStr s) = (s \<noteq> [])"
| "py_truthy (PInt i) = (i \<noteq> 0)"
| "py_truthy (PFloat f) = (f \<noteq> Fin 0)"
| "py_truthy (PDict d) = (d \<noteq> [])"
| "py_truthy (PObj a) = True"

text \<open>\<^verbatim>\<open>x[k]\<close> with a string key.\<close>

fun py_getitem :: "pyval \<Rightarrow> string \<Rightarrow> error + pyval" where
  "py_getitem (PDict d) k = (case map_of d k of None \<Rightarrow> Inl KeyError | Some v \<Rightarrow> Inr v)"
| "py_getitem x k = Inl TypeError"

text \<open>\<^verbatim>\<open>x[k] = v\<close> with a string key; the container after the assignment.\<close>

fun py_setitem :: "pyval \<Rightarrow> string \<Rightarrow> pyval \<Rightarrow> error + pyval" where
  "py_setitem (PDict d) k v = Inr (PDict (AList.update k v d))"
| "py_setitem x k v = Inl TypeError"

text \<open>\<^verbatim>\<open>x.update(y)\<close>; the container after the call.\<close>

fun py_update :: "pyval \<Rightarrow> pyval \<Rightarrow> error + pyval" where
  "py_update (PDict d) (PDict e) = Inr (PDict (fold (\<lambda>(k, v). AList.update k v) e d))"
| "py_update (PDict d) y = Inl TypeError"
| "py_update x y = Inl AttributeError"

text \<open>The body of the outer \<^verbatim>\<open>try\<close> of \<^verbatim>\<open>add_to_HB_model\<close>: the copy of the user
  data after the write, or the exception raised. A KeyError is raised by a lookup, before
  anything is written.\<close>

definition try_write :: "pyval \<Rightarrow> string \<Rightarrow> pyval \<Rightarrow> string \<Rightarrow> error + pyval" where
  "try_write ud key dict write =
     (if write = ''update'' then
        (case py_getitem ud ''phpp'' of
           Inl e \<Rightarrow> Inl e
         | Inr phpp \<Rightarrow>
             (case py_getitem phpp key of
                Inl e \<Rightarrow> Inl e
              | Inr cur \<Rightarrow>
                  (case py_update cur dict of
                     Inl e \<Rightarrow> Inl e
                   | Inr cur' \<Rightarrow>
                       (case py_setitem phpp key cur' of
                          Inl e \<Rightarrow> Inl e
                        | Inr phpp' \<Rightarrow> py_setitem ud ''phpp'' phpp'))))
      else if write = ''overwrite'' then
        (case py_getitem ud ''phpp'' of
           Inl e \<Rightarrow> Inl e
         | Inr phpp \<Rightarrow>
             (case py_setitem phpp key dict of
                Inl e \<Rightarrow> Inl e
              | Inr phpp' \<Rightarrow> py_setitem ud ''phpp'' phpp'))
      else Inr ud)"

text \<open>The first handler: \<^verbatim>\<open>user_data['phpp'].update({_key: _dict})\<close>.\<close>

definition try_update_phpp :: "pyval \<Rightarrow> string \<Rightarrow> pyval \<Rightarrow> error + pyval" where
  "try_update_phpp ud key dict =
     (case py_getitem ud ''phpp'' of
        Inl e \<Rightarrow> Inl e
      | Inr phpp \<Rightarrow>
          (case py_update phpp (PDict [(key, dict)]) of
             Inl e \<Rightarrow> Inl e
           | Inr phpp' \<Rightarrow> py_setitem ud ''phpp'' phpp'))"

definition add_to_HB_model :: "hb_obj \<Rightarrow> string \<Rightarrow> pyval \<Rightarrow> string \<Rightarrow> error + hb_obj" where
  "add_to_HB_model hb_model key dict write =
     (let ud = user_data hb_model
      in if \<not> py_truthy ud
         then Inr (hb_model\<lparr>user_data := PDict [(''phpp'', PDict [(key, dict)])]\<rparr>)
         else (case try_write ud key dict write of
                 Inr ud' \<Rightarrow> Inr (hb_model\<lparr>user_data := ud'\<rparr>)
               | Inl e \<Rightarrow>
                   if e = KeyError then
                     (case try_update_phpp ud key dict of
                        Inr ud' \<Rightarrow> Inr (hb_model\<lparr>user_data := ud'\<rparr>)
                      | Inl e' \<Rightarrow>
                          if e' = KeyError
                          then Inr (hb_model\<lparr>user_data := PDict [(''phpp'', PDict [(key, dict)])]\<rparr>)
                          else Inl e')
                   else Inl e))"

text \<open>The sibling \<^verbatim>\<open>add_to_hb_obj_user_data\<close>.\<close>

definition add_to_hb_obj_user_data :: "hb_obj \<Rightarrow> string \<Rightarrow> pyval \<Rightarrow> error + hb_obj" where
  "add_to_hb_obj_user_data hb_obj key val =
     (let ud = (if user_data hb_obj = PNone then PDict [] else user_data hb_obj)
      in (case ud of
            PDict d \<Rightarrow>
              (case map_of d ''phpp'' of
                 Some phpp \<Rightarrow>
                   (case py_getitem phpp key of
                      Inr cur \<Rightarrow>
                        (case py_update cur val of
                           Inl e \<Rightarrow> Inl e
                         | Inr cur' \<Rightarrow>
                             (case py_setitem phpp key cur' of
                                Inl e \<Rightarrow> Inl e
                              | Inr phpp' \<Rightarrow>
                                  Inr (hb_obj\<lparr>user_data := PDict (AList.update ''phpp'' phpp' d)\<rparr>)))
                    | Inl e \<Rightarrow>
                        if e = KeyError then
                          (case py_setitem phpp key val of
                             Inl e' \<Rightarrow> Inl e'
                           | Inr phpp' \<Rightarrow>
                               Inr (hb_obj\<lparr>user_data := PDict (AList.update ''phpp'' phpp' d)\<rparr>))
                        else Inl AttributeError)
               | None \<Rightarrow>
                   Inr (hb_obj\<lparr>user_data :=
                          PDict (AList.update ''phpp'' (PDict [(key, val)]) d)\<rparr>))
          | _ \<Rightarrow> Inl OtherError))"

section \<open>Honeybee rooms, faces and apertures as objects in a store\<close>

text \<open>
  Rooms, faces and apertures are objects that the components share and mutate, so they
  live in a store and are named by their address (the index in the store). A face holds
  the addresses of its apertures, a room those of its faces; the two geometries of a
  face are opaque handles.
\<close>

record face =
  geometry :: nat
  punched_geometry :: nat
  apertures :: "nat list"

record room =
  faces :: "nat list"

record heap =
  h_rooms :: "room list"
  h_faces :: "face list"
  h_apertures :: "hb_obj list"

text \<open>Honeybee's \<^verbatim>\<open>duplicate()\<close>: a new object with the same attributes; a face
  duplicates its apertures and a room its faces. The new object is put at the end of the
  store and its address is returned.\<close>

definition duplicate_aperture :: "heap \<Rightarrow> nat \<Rightarrow> heap \<times> nat" where
  "duplicate_aperture h a =
     (h\<lparr>h_apertures := h_apertures h @ [h_apertures h ! a]\<rparr>, length (h_apertures h))"

fun duplicate_apertures :: "heap \<Rightarrow> nat list \<Rightarrow> heap \<times> nat list" where
  "duplicate_apertures h [] = (h, [])"
| "duplicate_apertures h (a # as) =
     (let (h1, a') = duplicate_aperture h a;
          (h2, as') = duplicate_apertures h1 as
      in (h2, a' # as'))"

definition duplicate_face :: "heap \<Rightarrow> nat \<Rightarrow> heap \<times> nat" where
  "duplicate_face h f =
     (let fc = h_faces h ! f;
          (h1, aps) = duplicate_apertures h (apertures fc)
      in (h1\<lparr>h_faces := h_faces h1 @ [fc\<lparr>apertures := aps\<rparr>]\<rparr>, length (h_faces h1)))"

fun duplicate_faces :: "heap \<Rightarrow> nat list \<Rightarrow> heap \<times> nat list" where
  "duplicate_faces h [] = (h, [])"
| "duplicate_faces h (f # fs) =
     (let (h1, f') = duplicate_face h f;
          (h2, fs') = duplicate_faces h1 fs
      in (h2, f' # fs'))"

definition duplicate_room :: "heap \<Rightarrow> nat \<Rightarrow> heap \<times> nat" where
  "duplicate_room h r =
     (let rm = h_rooms h ! r;
          (h1, fs) = duplicate_faces h (faces rm)
      in (h1\<lparr>h_rooms := h_rooms h1 @ [rm\<lparr>faces := fs\<rparr>]\<rparr>, length (h_rooms h1)))"

text \<open>
  \<^verbatim>\<open>LBT2PH.windows\<close> is not among the sources: what the components use of its class
  \<^verbatim>\<open>PHPP_Window\<close> is taken as a parameter. \<open>'w\<close> is the window object;
  \<open>with_shading\<close> stands for the three attribute assignments
  (\<^verbatim>\<open>shading_factor_winter\<close>, \<^verbatim>\<open>shading_factor_summer\<close>, \<^verbatim>\<open>shading_dimensions = None\<close>).
\<close>

record ('w, 'g, 's) windows_module =
  from_dict :: "pyval \<Rightarrow> error + 'w"
  with_shading :: "'w \<Rightarrow> pyfloat \<Rightarrow> pyfloat \<Rightarrow> 'w"
  to_dict :: "'w \<Rightarrow> error + pyval"
  reveal_geometry :: "'w \<Rightarrow> error + 'g list"
  inset_window_surface :: "'w \<Rightarrow> error + 's"

text \<open>A \<^verbatim>\<open>for\<close> loop over addresses whose body may raise: the state when the loop
  ends, and the exception that ended it, if any.\<close>

fun for_each :: "('s \<Rightarrow> nat \<Rightarrow> 's \<times> error option) \<Rightarrow> 's \<Rightarrow> nat list \<Rightarrow> 's \<times> error option" where
  "for_each body st [] = (st, None)"
| "for_each body st (x # xs) =
     (case body st x of
        (st1, Some e) \<Rightarrow> (st1, Some e)
      | (st1, None) \<Rightarrow> for_each body st1 xs)"

text \<open>The two handlers of the components: KeyError and TypeError are printed and the
  loop goes on; any other exception leaves the component.\<close>

definition handled :: "error \<Rightarrow> error option" where
  "handled e = (if e = KeyError \<or> e = TypeError then None else Some e)"

section \<open>LBT2PH_ApplyWindowShadingFactors\<close>

datatype message = LengthMismatch | ZeroFactor string

record params =
  winter :: pyfloat
  summer :: pyfloat

text \<open>\<^verbatim>\<open>float(factors[i])\<close> under its two handlers: IndexError and SystemError give
  0.75, any other exception leaves the component.\<close>

definition shading_factor :: "pyval list \<Rightarrow> nat \<Rightarrow> error + pyfloat" where
  "shading_factor factors i =
     (case (if i < length factors then py_float (factors ! i) else Inl IndexError) of
        Inr f \<Rightarrow> Inr f
      | Inl e \<Rightarrow> if e = IndexError \<or> e = SystemError then Inr (Fin 0.75) else Inl e)"

text \<open>The loop over \<^verbatim>\<open>enumerate(_window_names)\<close>, from index \<open>i\<close> on.\<close>

fun build_param_dict ::
  "pyval list \<Rightarrow> pyval list \<Rightarrow> nat \<Rightarrow> string list \<Rightarrow> (string \<times> params) list
     \<Rightarrow> error + (string \<times> params) list" where
  "build_param_dict ws ss i [] param_dict = Inr param_dict"
| "build_param_dict ws ss i (window_name # names) param_dict =
     (case shading_factor ws i of
        Inl e \<Rightarrow> Inl e
      | Inr winter_factor \<Rightarrow>
          (case shading_factor ss i of
             Inl e \<Rightarrow> Inl e
           | Inr summer_factor \<Rightarrow>
               build_param_dict ws ss (Suc i) names
                 (AList.update window_name
                    \<lparr>winter = winter_factor, summer = summer_factor\<rparr> param_dict)))"

text \<open>The body of the loop over the apertures of a face of the new room.\<close>

definition apply_aperture ::
  "('w, 'g, 's) windows_module \<Rightarrow> (string \<times> params) list \<Rightarrow> heap \<Rightarrow> nat
     \<Rightarrow> heap \<times> error option" where
  "apply_aperture W param_dict h a =
     (let aperture = h_apertures h ! a;
          name = display_name aperture
      in (case (case py_getitem (user_data aperture) ''phpp'' of
                  Inl e \<Rightarrow> Inl e
                | Inr d \<Rightarrow> from_dict W d) of
            Inl e \<Rightarrow> (h, handled e)
          | Inr phpp_window \<Rightarrow>
              (case map_of param_dict name of
                 None \<Rightarrow> (h, None)
               | Some window_factors \<Rightarrow>
                   (case to_dict W (with_shading W phpp_window
                                      (winter window_factors) (summer window_factors)) of
                      Inl e \<Rightarrow> (h, Some e)
                    | Inr d \<Rightarrow>
                        (h\<lparr>h_apertures :=
                             (h_apertures h)[a := aperture\<lparr>user_data := PDict [(''phpp'', d)]\<rparr>]\<rparr>,
                         None)))))"

definition apply_face ::
  "('w, 'g, 's) windows_module \<Rightarrow> (string \<times> params) list \<Rightarrow> heap \<Rightarrow> nat
     \<Rightarrow> heap \<times> error option" where
  "apply_face W param_dict h f =
     for_each (apply_aperture W param_dict) h (apertures (h_faces h ! f))"

text \<open>The body of the loop over \<^verbatim>\<open>_HB_rooms\<close>: the store afterwards, and the new room
  to append or the exception.\<close>

definition apply_room ::
  "('w, 'g, 's) windows_module \<Rightarrow> (string \<times> params) list \<Rightarrow> heap \<Rightarrow> nat
     \<Rightarrow> heap \<times> (error + nat)" where
  "apply_room W param_dict h r =
     (let (h1, new_room) = duplicate_room h r
      in (case for_each (apply_face W param_dict) h1 (faces (h_rooms h1 ! new_room)) of
            (h2, Some e) \<Rightarrow> (h2, Inl e)
          | (h2, None) \<Rightarrow> (h2, Inr new_room)))"

fun apply_rooms ::
  "('w, 'g, 's) windows_module \<Rightarrow> (string \<times> params) list \<Rightarrow> heap \<Rightarrow> nat list \<Rightarrow> nat list
     \<Rightarrow> heap \<times> (error + nat list)" where
  "apply_rooms W param_dict h [] HB_rooms_out = (h, Inr HB_rooms_out)"
| "apply_rooms W param_dict h (r # rs) HB_rooms_out =
     (case apply_room W param_dict h r of
        (h1, Inl e) \<Rightarrow> (h1, Inl e)
      | (h1, Inr new_room) \<Rightarrow> apply_rooms W param_dict h1 rs (HB_rooms_out @ [new_room]))"

text \<open>The last loop: a warning for every entry of the param dict with a factor 0.\<close>

definition zero_warnings :: "(string \<times> params) list \<Rightarrow> message list" where
  "zero_warnings param_dict =
     map (\<lambda>(k, v). ZeroFactor k)
       (filter (\<lambda>(k, v). winter v = Fin 0 \<or> summer v = Fin 0) param_dict)"

text \<open>The component: the runtime messages it added, the store when it ends, and its
  outputs (the param dict and \<^verbatim>\<open>HB_rooms_\<close>, here \<open>HB_rooms_out\<close>) or the exception that ended it.\<close>

definition ApplyWindowShadingFactors ::
  "('w, 'g, 's) windows_module \<Rightarrow> heap \<Rightarrow> nat list \<Rightarrow> string list \<Rightarrow> pyval list \<Rightarrow> pyval list
     \<Rightarrow> message list \<times> heap \<times> (error + (string \<times> params) list \<times> nat list)" where
  "ApplyWindowShadingFactors W h HB_rooms window_names winter_shading_factors
       summer_shading_factors =
     (let msgs = (if length window_names \<noteq> length winter_shading_factors
                     \<or> length window_names \<noteq> length summer_shading_factors
                  then [LengthMismatch] else [])
      in (case build_param_dict winter_shading_factors summer_shading_factors 0
                 window_names [] of
            Inl e \<Rightarrow> (msgs, h, Inl e)
          | Inr param_dict \<Rightarrow>
              (case apply_rooms W param_dict h HB_rooms [] of
                 (h1, Inl e) \<Rightarrow> (msgs, h1, Inl e)
               | (h1, Inr HB_rooms_out) \<Rightarrow>
                   (msgs @ zero_warnings param_dict, h1, Inr (param_dict, HB_rooms_out)))))"

section \<open>LBT2PH_CreateWindowReveals\<close>

text \<open>The lists the component fills (an output \<^verbatim>\<open>x_\<close> of the source is \<open>x_out\<close>
  here). The data tree is a list of branches, each a path
  number with its items; \<^verbatim>\<open>AddRange\<close> extends the branch of the path or starts it.\<close>

record ('g, 's, 'e) reveals =
  window_surrounds_out :: "(nat \<times> 'g list) list"
  envelope_surfaces_out :: "'e list"
  window_names_out :: "string list"
  window_surfaces_out :: "'s list"
  envelope_surfaces_punched :: "'e list"
  count :: nat

definition AddRange :: "(nat \<times> 'g list) list \<Rightarrow> 'g list \<Rightarrow> nat \<Rightarrow> (nat \<times> 'g list) list" where
  "AddRange tree items path =
     (case map_of tree path of
        None \<Rightarrow> tree @ [(path, items)]
      | Some branch \<Rightarrow> AList.update path (branch @ items) tree)"

text \<open>The body of the loop over the apertures of a face: the \<^verbatim>\<open>try\<close> block and its
  handlers.\<close>

definition reveal_aperture ::
  "('w, 'g, 's) windows_module \<Rightarrow> heap \<Rightarrow> ('g, 's, 'e) reveals \<Rightarrow> nat
     \<Rightarrow> ('g, 's, 'e) reveals \<times> error option" where
  "reveal_aperture W h st a =
     (let aperture = h_apertures h ! a;
          name = display_name aperture
      in (case (case py_getitem (user_data aperture) ''phpp'' of
                  Inl e \<Rightarrow> Inl e
                | Inr d \<Rightarrow> from_dict W d) of
            Inl e \<Rightarrow> (st, handled e)
          | Inr phpp_window \<Rightarrow>
              (case reveal_geometry W phpp_window of
                 Inl e \<Rightarrow> (st, handled e)
               | Inr g \<Rightarrow>
                   (let st1 = st\<lparr>window_surrounds_out :=
                                   AddRange (window_surrounds_out st) g (count st)\<rparr>
                    in (case inset_window_surface W phpp_window of
                          Inl e \<Rightarrow> (st1, handled e)
                        | Inr s \<Rightarrow>
                            (st1\<lparr>window_surfaces_out := window_surfaces_out st1 @ [s],
                                 window_names_out := window_names_out st1 @ [name],
                                 count := count st1 + 1\<rparr>,
                             None))))))"

text \<open>The body of the loop over the faces of a room; \<open>from_face3d\<close> (ladybug_rhino) is a
  parameter.\<close>

definition reveal_face ::
  "('w, 'g, 's) windows_module \<Rightarrow> (nat \<Rightarrow> error + 'e) \<Rightarrow> heap \<Rightarrow> ('g, 's, 'e) reveals \<Rightarrow> nat
     \<Rightarrow> ('g, 's, 'e) reveals \<times> error option" where
  "reveal_face W from_face3d h st f =
     (let fc = h_faces h ! f
      in (case from_face3d (punched_geometry fc) of
            Inl e \<Rightarrow> (st, Some e)
          | Inr p \<Rightarrow>
              (let st1 = st\<lparr>envelope_surfaces_punched := envelope_surfaces_punched st @ [p]\<rparr>
               in (case from_face3d (geometry fc) of
                     Inl e \<Rightarrow> (st1, Some e)
                   | Inr g \<Rightarrow>
                       (let st2 = st1\<lparr>envelope_surfaces_out := envelope_surfaces_out st1 @ [g]\<rparr>
                        in if apertures fc = [] then (st2, None)
                           else for_each (reveal_aperture W h) st2 (apertures fc))))))"

definition reveal_room ::
  "('w, 'g, 's) windows_module \<Rightarrow> (nat \<Rightarrow> error + 'e) \<Rightarrow> heap \<Rightarrow> ('g, 's, 'e) reveals \<Rightarrow> nat
     \<Rightarrow> ('g, 's, 'e) reveals \<times> error option" where
  "reveal_room W from_face3d h st r =
     for_each (reveal_face W from_face3d h) st (faces (h_rooms h ! r))"

text \<open>The lists and the counter before the loop.\<close>

definition empty_reveals :: "('g, 's, 'e) reveals" where
  "empty_reveals =
     \<lparr>window_surrounds_out = [], envelope_surfaces_out = [], window_names_out = [],
      window_surfaces_out = [], envelope_surfaces_punched = [], count = 0\<rparr>"

text \<open>The component: the lists when it ends, and the exception that ended it, if any.\<close>

definition CreateWindowReveals ::
  "('w, 'g, 's) windows_module \<Rightarrow> (nat \<Rightarrow> error + 'e) \<Rightarrow> heap \<Rightarrow> nat list
     \<Rightarrow> ('g, 's, 'e) reveals \<times> error option" where
  "CreateWindowReveals W from_face3d h HB_rooms =
     for_each (reveal_room W from_face3d h) empty_reveals HB_rooms"

section \<open>What the claims say about the lists of LBT2PH_CreateWindowReveals\<close>

text \<open>The window an aperture gives: its name and its inset surface, when the
  \<^verbatim>\<open>try\<close> block runs to its end on it (the user data has a \<^verbatim>\<open>phpp\<close> entry from
  which a window with reveal geometry and an inset surface is built), and nothing
  otherwise. The apertures of the rooms are taken room by room, face by face.\<close>

definition window_of :: "('w, 'g, 's) windows_module \<Rightarrow> hb_obj \<Rightarrow> (string \<times> 's) option" where
  "window_of W aperture =
     (case py_getitem (user_data aperture) ''phpp'' of
        Inl e \<Rightarrow> None
      | Inr d \<Rightarrow>
          (case from_dict W d of
             Inl e \<Rightarrow> None
           | Inr w \<Rightarrow>
               (case reveal_geometry W w of
                  Inl e \<Rightarrow> None
                | Inr g \<Rightarrow>
                    (case inset_window_surface W w of
                       Inl e \<Rightarrow> None
                     | Inr s \<Rightarrow> Some (display_name aperture, s)))))"

definition all_apertures :: "heap \<Rightarrow> nat list \<Rightarrow> nat list" where
  "all_apertures h HB_rooms =
     concat (map (\<lambda>f. apertures (h_faces h ! f))
               (concat (map (\<lambda>r. faces (h_rooms h ! r)) HB_rooms)))"

definition windows :: "('g, 's, 'e) reveals \<Rightarrow> (string \<times> 's) list" where
  "windows st = zip (window_names_out st) (window_surfaces_out st)"

definition aligned :: "('g, 's, 'e) reveals \<Rightarrow> bool" where
  "aligned st = (length (window_names_out st) = length (window_surfaces_out st))"

definition win_list :: "('w, 'g, 's) windows_module \<Rightarrow> heap \<Rightarrow> nat \<Rightarrow> (string \<times> 's) list" where
  "win_list W h a = (case window_of W (h_apertures h ! a) of None \<Rightarrow> [] | Some p \<Rightarrow> [p])"

section \<open>What the claims say about the store\<close>

text \<open>Every room, face and aperture of the store \<open>h\<close> is in \<open>h'\<close> at the same address
  with the same attributes: \<open>h'\<close> is \<open>h\<close> with new objects after it.\<close>

definition unchanged :: "heap \<Rightarrow> heap \<Rightarrow> bool" where
  "unchanged h h' =
     (take (length (h_rooms h)) (h_rooms h') = h_rooms h
      \<and> take (length (h_faces h)) (h_faces h') = h_faces h
      \<and> take (length (h_apertures h)) (h_apertures h') = h_apertures h)"

text \<open>The apertures of a face have addresses from \<open>lo\<close> up to \<open>hi\<close>.\<close>

definition fresh_apertures :: "nat \<Rightarrow> nat \<Rightarrow> face \<Rightarrow> bool" where
  "fresh_apertures lo hi fc = (\<forall>a\<in>set (apertures fc). lo \<le> a \<and> a < hi)"

text \<open>The store agrees with \<open>h0\<close> on rooms and faces, and on the apertures below \<open>n\<close>.\<close>

definition same_below :: "nat \<Rightarrow> heap \<Rightarrow> heap \<Rightarrow> bool" where
  "same_below n h0 h =
     (h_rooms h = h_rooms h0 \<and> h_faces h = h_faces h0
      \<and> length (h_apertures h) = length (h_apertures h0)
      \<and> take n (h_apertures h) = take n (h_apertures h0))"

text \<open>A room of the store is well formed when it, its faces and their apertures are
  objects of the store.\<close>

definition wf_face :: "heap \<Rightarrow> nat \<Rightarrow> bool" where
  "wf_face h f =
     (f < length (h_faces h)
      \<and> (\<forall>a\<in>set (apertures (h_faces h ! f)). a < length (h_apertures h)))"

definition wf_room :: "heap \<Rightarrow> nat \<Rightarrow> bool" where
  "wf_room h r =
     (r < length (h_rooms h) \<and> (\<forall>f\<in>set (faces (h_rooms h ! r)). wf_face h f))"

text \<open>A room read out of the store: face by face the two geometries and the aperture
  objects.\<close>

definition face_view :: "heap \<Rightarrow> nat \<Rightarrow> nat \<times> nat \<times> hb_obj list" where
  "face_view h f =
     (geometry (h_faces h ! f), punched_geometry (h_faces h ! f),
      map (\<lambda>a. h_apertures h ! a) (apertures (h_faces h ! f)))"

definition room_view :: "heap \<Rightarrow> nat \<Rightarrow> (nat \<times> nat \<times> hb_obj list) list" where
  "room_view h r = map (face_view h) (faces (h_rooms h ! r))"

text \<open>What the component writes to an aperture of a new room: the \<^verbatim>\<open>phpp\<close> dict of the
  window with the factors of its name, when the user data gives a window and the param
  dict has the name; the aperture as it is otherwise.\<close>

definition shaded :: "('w, 'g, 's) windows_module \<Rightarrow> (string \<times> params) list \<Rightarrow> hb_obj \<Rightarrow> hb_obj" where
  "shaded W param_dict aperture =
     (case py_getitem (user_data aperture) ''phpp'' of
        Inl e \<Rightarrow> aperture
      | Inr d \<Rightarrow>
          (case from_dict W d of
             Inl e \<Rightarrow> aperture
           | Inr w \<Rightarrow>
               (case map_of param_dict (display_name aperture) of
                  None \<Rightarrow> aperture
                | Some window_factors \<Rightarrow>
                    (case to_dict W (with_shading W w (winter window_factors)
                                       (summer window_factors)) of
                       Inl e \<Rightarrow> aperture
                     | Inr d' \<Rightarrow> aperture\<lparr>user_data := PDict [(''phpp'', d')]\<rparr>))))"

text \<open>The list \<open>xs\<close> after \<open>f\<close> was applied in place at the addresses \<open>as\<close>, one after
  the other.\<close>

definition upd_all :: "('a \<Rightarrow> 'a) \<Rightarrow> nat list \<Rightarrow> 'a list \<Rightarrow> 'a list" where
  "upd_all f as xs = fold (\<lambda>a ys. ys[a := f (ys ! a)]) as xs"

definition shaded_room ::
  "('w, 'g, 's) windows_module \<Rightarrow> (string \<times> params) list \<Rightarrow> (nat \<times> nat \<times> hb_obj list) list
     \<Rightarrow> (nat \<times> nat \<times> hb_obj list) list" where
  "shaded_room W param_dict v = map (\<lambda>(g, p, aps). (g, p, map (shaded W param_dict) aps)) v"

section \<open>A sample store and a sample window class\<close>

text \<open>Used to run the components on a concrete input: a window is the dict it was
  built from, its surface is the \<^verbatim>\<open>surface\<close> entry, and it has four reveal surfaces.
  The store has one room with one face and two apertures, A with \<^verbatim>\<open>phpp\<close> data and B
  with no user data.\<close>

definition example_windows :: "((string \<times> pyval) list, nat, pyval) windows_module" where
  "example_windows =
     \<lparr>from_dict = (\<lambda>v. case v of PDict d \<Rightarrow> Inr d | _ \<Rightarrow> Inl TypeError),
      with_shading = (\<lambda>w a b. AList.update ''shading_factor_summer'' (PFloat b)
                                 (AList.update ''shading_factor_winter'' (PFloat a) w)),
      to_dict = (\<lambda>w. Inr (PDict w)),
      reveal_geometry = (\<lambda>w. Inr [0, 1, 2, 3]),
      inset_window_surface =
        (\<lambda>w. case map_of w ''surface'' of None \<Rightarrow> Inl KeyError | Some s \<Rightarrow> Inr s)\<rparr>"

definition example_heap :: heap where
  "example_heap =
     \<lparr>h_rooms = [\<lparr>faces = [0]\<rparr>],
      h_faces = [\<lparr>geometry = 0, punched_geometry = 1, apertures = [0, 1]\<rparr>],
      h_apertures =
        [\<lparr>display_name = ''A'',
          user_data = PDict [(''phpp'', PDict [(''surface'', PInt 7)])]\<rparr>,
         \<lparr>display_name = ''B'', user_data = PNone\<rparr>]\<rparr>"

definition example_from_face3d :: "nat \<Rightarrow> error + nat" where
  "example_from_face3d g = Inr g"

section \<open>Facts about substrings and the conversion table\<close>

lemma starts_with_append: "starts_with (p @ q) s \<Longrightarrow> starts_with p s"
  by (induction p s rule: starts_with.induct) auto

lemma py_in_append: "py_in (p @ q) s \<Longrightarrow> py_in p s"
proof (induction s)
  case Nil
  then show ?case by simp
next
  case (Cons c cs)
  then show ?case using starts_with_append [of p q "c # cs"] by auto
qed

lemma py_in_FT3_FT: "py_in ''FT3'' t \<Longrightarrow> py_in ''FT'' t"
  using py_in_append [of "''FT''" "''3''" t] by simp

lemma conversionFactor_pos: "0 < conversionFactor out u"
  by (simp add: conversionFactor_def schema_def squote_def dquote_def split: option.split)

section \<open>Facts about the split and about float() on a numeric run\<close>

lemma re_split_nonempty: "re_split s \<noteq> []"
  by (induction s) auto

lemma hd_re_split: "hd (re_split s) = takeWhile (\<lambda>c. \<not> is_sep c) s"
  by (induction s) auto

lemma first_nonempty_re_split: "first_nonempty (re_split s) = first_numeric_run s"
proof (induction s)
  case Nil
  then show ?case by (simp add: first_numeric_run_def)
next
  case (Cons c cs)
  show ?case
  proof (cases "is_sep c")
    case True
    with Cons show ?thesis by (simp add: first_numeric_run_def)
  next
    case False
    then show ?thesis by (simp add: first_numeric_run_def hd_re_split)
  qed
qed

lemma first_numeric_run_chars:
  assumes "first_numeric_run s = Some run"
  shows "run \<noteq> []" and "\<forall>c\<in>set run. \<not> is_sep c"
proof -
  let ?t = "dropWhile is_sep s"
  from assms have t: "?t \<noteq> []" and r: "run = takeWhile (\<lambda>c. \<not> is_sep c) ?t"
    by (auto simp: first_numeric_run_def Let_def split: if_splits)
  from t have "\<not> is_sep (hd ?t)" by (rule hd_dropWhile)
  with t r show "run \<noteq> []" by (cases ?t) auto
  from r show "\<forall>c\<in>set run. \<not> is_sep c" by (auto dest: set_takeWhileD)
qed

lemma digits_val_nonneg: "0 \<le> (of_nat (digits_val ds) :: rat)"
  by simp

lemma scale10_nonneg: "0 \<le> r \<Longrightarrow> 0 \<le> scale10 r e"
  by (simp add: scale10_def)

lemma parse_decimal_nonneg:
  assumes "parse_decimal s = Some r"
  shows "0 \<le> r"
proof -
  define ip where "ip = takeWhile is_digit s"
  define r1 where "r1 = dropWhile is_digit s"
  define has_dot where "has_dot = (r1 \<noteq> [] \<and> hd r1 = CHR ''.'')"
  define fp where "fp = (if has_dot then takeWhile is_digit (tl r1) else [])"
  define r2 where "r2 = (if has_dot then dropWhile is_digit (tl r1) else r1)"
  define m :: rat where "m = of_nat (digits_val ip) + of_nat (digits_val fp) / 10 ^ length fp"
  have pd: "parse_decimal s =
      (if ip = [] \<and> fp = [] then None
       else (case parse_exp r2 of None \<Rightarrow> None | Some e \<Rightarrow> Some (scale10 m e)))"
    unfolding parse_decimal_def Let_def ip_def r1_def has_dot_def fp_def r2_def m_def ..
  have m0: "0 \<le> m" unfolding m_def by simp
  from assms pd obtain e where "r = scale10 m e"
    by (cases "ip = [] \<and> fp = []"; cases "parse_exp r2") auto
  with m0 show ?thesis by (simp add: scale10_nonneg)
qed

lemma not_sep_cases: "\<not> is_sep c \<Longrightarrow> c \<in> set ''0123456789.''"
  unfolding is_sep_def is_digit_def by auto

lemma not_sep_not_space: "\<not> is_sep c \<Longrightarrow> \<not> is_space c"
proof -
  assume "\<not> is_sep c"
  then have "c \<in> set ''0123456789.''" by (rule not_sep_cases)
  moreover have "\<forall>d\<in>set ''0123456789.''. \<not> is_space d" by (simp add: is_space_def)
  ultimately show ?thesis by blast
qed

lemma not_sep_upper: "\<not> is_sep c \<Longrightarrow> upper_char c = c"
proof -
  assume "\<not> is_sep c"
  then have "c \<in> set ''0123456789.''" by (rule not_sep_cases)
  moreover have "\<forall>d\<in>set ''0123456789.''. upper_char d = d" by (simp add: upper_char_def)
  ultimately show ?thesis by blast
qed

lemma py_strip_run:
  assumes "\<forall>c\<in>set run. \<not> is_sep c"
  shows "py_strip run = run"
proof -
  have a: "\<forall>c\<in>set run. \<not> is_space c" using assms not_sep_not_space by blast
  then have "dropWhile is_space run = run" by (cases run) auto
  moreover from a have "dropWhile is_space (rev run) = rev run" by (cases "rev run") auto
  ultimately show ?thesis by (simp add: py_strip_def)
qed

lemma float_of_string_run:
  assumes "\<forall>c\<in>set run. \<not> is_sep c"
  shows "float_of_string run =
           (case parse_decimal run of None \<Rightarrow> Inl ValueError | Some r \<Rightarrow> Inr (Fin r))"
proof -
  have s: "py_strip run = run" using assms by (rule py_strip_run)
  have u: "upper run = run" unfolding upper_def using assms not_sep_upper by (simp add: map_idI)
  have h: "run \<noteq> [] \<longrightarrow> hd run \<noteq> CHR ''-'' \<and> hd run \<noteq> CHR ''+''"
    using assms by (cases run) (auto simp: is_sep_def is_digit_def)
  have sI: "is_sep (CHR ''I'')" and sN: "is_sep (CHR ''N'')"
    by (simp_all add: is_sep_def is_digit_def)
  have n1: "run \<noteq> ''INF''"
  proof
    assume "run = ''INF''"
    then have "CHR ''I'' \<in> set run" by simp
    with assms sI show False by blast
  qed
  have n2: "run \<noteq> ''INFINITY''"
  proof
    assume "run = ''INFINITY''"
    then have "CHR ''I'' \<in> set run" by simp
    with assms sI show False by blast
  qed
  have n3: "run \<noteq> ''NAN''"
  proof
    assume "run = ''NAN''"
    then have "CHR ''N'' \<in> set run" by simp
    with assms sN show False by blast
  qed
  note n = n1 n2 n3
  show ?thesis
  proof (cases "run = []")
    case True
    then show ?thesis using s by (simp add: float_of_string_def Let_def upper_def parse_decimal_def)
  next
    case False
    with h have "hd run \<noteq> CHR ''-''" "hd run \<noteq> CHR ''+''" by auto
    with False s u n show ?thesis by (simp add: float_of_string_def Let_def split: option.split)
  qed
qed

section \<open>find_input_string never answers FT3\<close>

text \<open>
  C9. For every input, \<open>find_input_string\<close> returns one of FT, IN, MM, CM, M, IP, SI and
  never FT3: a string that contains FT3 contains FT and is answered by the first
  branch. So the factor the M3 row of the schema gives for the unit found is always 1,
  never the FT3 entry.
\<close>

theorem find_input_string_range:
  "find_input_string s \<in> {''FT'', ''IN'', ''MM'', ''CM'', ''M'', ''IP'', ''SI''}
   \<and> find_input_string s \<noteq> ''FT3''
   \<and> (py_in ''FT3'' (upper s) \<longrightarrow> find_input_string s = ''FT'')
   \<and> conversionFactor ''M3'' (find_input_string s) = 1"
proof -
  let ?u = "find_input_string s"
  have r: "?u \<in> {''FT'', ''IN'', ''MM'', ''CM'', ''M'', ''IP'', ''SI''}"
    using py_in_FT3_FT [of "upper s"] by (auto simp: find_input_string_def Let_def)
  then have n: "?u \<noteq> ''FT3''" by auto
  have f: "py_in ''FT3'' (upper s) \<longrightarrow> ?u = ''FT''"
    using py_in_FT3_FT [of "upper s"] by (simp add: find_input_string_def Let_def)
  have c: "conversionFactor ''M3'' ?u = 1"
    using r by (auto simp: conversionFactor_def schema_def)
  from r n f c show ?thesis by blast
qed

theorem find_input_string_range_witness:
  "py_in ''FT3'' (upper ''1 ft3'') \<and> find_input_string ''1 ft3'' = ''FT''
   \<and> conversionFactor ''M3'' (find_input_string ''1 ft3'') = 1"
proof -
  have h: "py_in ''FT3'' (upper ''1 ft3'')"
    by (simp add: upper_def upper_char_def)
  from h find_input_string_range [of "''1 ft3''"] show ?thesis by blast
qed

section \<open>convert_value_to_metric on strings that float() rejects\<close>

lemma convert_string_unparsed:
  assumes "float_of_string s = Inl e"
  shows "convert_value_to_metric (PStr s) out =
     (case first_numeric_run s of
        None \<Rightarrow> Inr (PStr s)
      | Some run \<Rightarrow>
          (case parse_decimal run of
             None \<Rightarrow> Inr (PStr run)
           | Some r \<Rightarrow> Inr (PFloat (Fin (r * conversionFactor out (find_input_string s))))))"
proof (cases "first_numeric_run s")
  case None
  with assms show ?thesis
    by (simp add: convert_value_to_metric_def convert_inner_def first_nonempty_re_split)
next
  case (Some run)
  then have "\<forall>c\<in>set run. \<not> is_sep c" by (rule first_numeric_run_chars)
  then have f: "float_of_string run =
      (case parse_decimal run of None \<Rightarrow> Inl ValueError | Some r \<Rightarrow> Inr (Fin r))"
    by (rule float_of_string_run)
  show ?thesis
  proof (cases "parse_decimal run")
    case None
    with assms Some f show ?thesis
      by (simp add: convert_value_to_metric_def convert_inner_def first_nonempty_re_split)
  next
    case (Some r)
    with assms \<open>first_numeric_run s = Some run\<close> f show ?thesis
      by (simp add: convert_value_to_metric_def convert_inner_def first_nonempty_re_split)
  qed
qed

text \<open>
  C10. For a string that \<open>float\<close> rejects, a numeric result of
  \<open>convert_value_to_metric\<close> is the value of the first maximal run of digits and
  periods times the conversion factor: a sign in front of the run is lost, and the
  result is never negative.
\<close>

theorem convert_value_to_metric_unparsed_nonneg:
  assumes "float_of_string s = Inl e"
    and "convert_value_to_metric (PStr s) out = Inr (PFloat x)"
  shows "\<exists>run r. first_numeric_run s = Some run \<and> parse_decimal run = Some r
           \<and> x = Fin (r * conversionFactor out (find_input_string s))
           \<and> 0 \<le> r * conversionFactor out (find_input_string s)"
proof -
  from assms(2) convert_string_unparsed [OF assms(1), of out]
  obtain run r where a: "first_numeric_run s = Some run" "parse_decimal run = Some r"
      "x = Fin (r * conversionFactor out (find_input_string s))"
    by (auto split: option.splits)
  from a(2) have "0 \<le> r" by (rule parse_decimal_nonneg)
  moreover have "0 < conversionFactor out (find_input_string s)" by (rule conversionFactor_pos)
  ultimately have "0 \<le> r * conversionFactor out (find_input_string s)" by simp
  with a show ?thesis by blast
qed

theorem convert_value_to_metric_unparsed_nonneg_witness:
  "float_of_string ''-12 FT'' = Inl ValueError
   \<and> convert_value_to_metric (PStr ''-12 FT'') ''M'' = Inr (PFloat (Fin (12 * 0.3048)))
   \<and> (\<exists>run r. first_numeric_run ''-12 FT'' = Some run \<and> parse_decimal run = Some r
          \<and> Fin (12 * 0.3048) = Fin (r * conversionFactor ''M'' (find_input_string ''-12 FT''))
          \<and> 0 \<le> r * conversionFactor ''M'' (find_input_string ''-12 FT''))"
proof -
  have h1: "float_of_string ''-12 FT'' = Inl ValueError"
    by (simp add: float_of_string_def py_strip_def is_space_def upper_def upper_char_def
      parse_decimal_def is_digit_def parse_exp_def)
  have h2: "convert_value_to_metric (PStr ''-12 FT'') ''M'' = Inr (PFloat (Fin (12 * 0.3048)))"
    by code_simp
  from h1 h2 convert_value_to_metric_unparsed_nonneg [OF h1 h2] show ?thesis by blast
qed

section \<open>convert_value_to_metric always returns\<close>

text \<open>
  C7, as the code has it. \<open>convert_value_to_metric\<close> returns for every input and
  never raises. It returns None for None and the float for an input that \<open>float\<close>
  accepts. For an input that \<open>float\<close> rejects: a value that is not a string is
  returned unchanged; a string with no digit and no period is returned unchanged; a
  string whose first run of digits and periods is not a number gives that run, not the
  input.
\<close>

theorem convert_value_to_metric_total:
  "(\<exists>r. convert_value_to_metric v out = Inr r)
   \<and> convert_value_to_metric PNone out = Inr PNone
   \<and> (\<forall>f. py_float v = Inr f \<longrightarrow> convert_value_to_metric v out = Inr (PFloat f))
   \<and> (isl (py_float v) \<and> (\<forall>s. v \<noteq> PStr s) \<longrightarrow> convert_value_to_metric v out = Inr v)
   \<and> (\<forall>s. v = PStr s \<and> isl (float_of_string s) \<and> first_numeric_run s = None
          \<longrightarrow> convert_value_to_metric v out = Inr v)
   \<and> (\<forall>s run. v = PStr s \<and> isl (float_of_string s) \<and> first_numeric_run s = Some run
            \<and> parse_decimal run = None
          \<longrightarrow> convert_value_to_metric v out = Inr (PStr run))"
proof -
  have t: "\<exists>r. convert_value_to_metric v out = Inr r"
    by (cases "py_float v"; cases "convert_inner v out"; cases "snd (convert_inner v out)")
       (auto simp: convert_value_to_metric_def)
  have n: "convert_value_to_metric PNone out = Inr PNone"
    by (simp add: convert_value_to_metric_def)
  have p: "\<forall>f. py_float v = Inr f \<longrightarrow> convert_value_to_metric v out = Inr (PFloat f)"
    by (cases v) (auto simp: convert_value_to_metric_def)
  have o: "isl (py_float v) \<and> (\<forall>s. v \<noteq> PStr s) \<longrightarrow> convert_value_to_metric v out = Inr v"
    by (cases v) (auto simp: convert_value_to_metric_def convert_inner_def)
  have a: "\<forall>s. v = PStr s \<and> isl (float_of_string s) \<and> first_numeric_run s = None
          \<longrightarrow> convert_value_to_metric v out = Inr v"
    using convert_string_unparsed [of _ _ out] by (auto simp: isl_def)
  have b: "\<forall>s run. v = PStr s \<and> isl (float_of_string s) \<and> first_numeric_run s = Some run
            \<and> parse_decimal run = None
          \<longrightarrow> convert_value_to_metric v out = Inr (PStr run)"
    using convert_string_unparsed [of _ _ out] by (auto simp: isl_def)
  from t n p o a b show ?thesis by blast
qed

theorem convert_value_to_metric_total_witness:
  "convert_value_to_metric (PInt 5) ''M'' = Inr (PFloat (Fin 5))
   \<and> convert_value_to_metric (PObj 0) ''M'' = Inr (PObj 0)
   \<and> convert_value_to_metric (PStr ''abc'') ''M'' = Inr (PStr ''abc'')
   \<and> convert_value_to_metric (PStr ''1.2.3 FT'') ''M'' = Inr (PStr ''1.2.3'')"
proof -
  have a: "py_float (PInt 5) = Inr (Fin 5)" by (simp add: float_overflows_def)
  have b: "isl (py_float (PObj 0)) \<and> (\<forall>s. PObj 0 \<noteq> PStr s)" by simp
  have c: "isl (float_of_string ''abc'') \<and> first_numeric_run ''abc'' = None"
    by (simp add: first_numeric_run_def is_sep_def float_of_string_def py_strip_def is_space_def upper_def upper_char_def
      parse_decimal_def is_digit_def parse_exp_def)
  have d: "isl (float_of_string ''1.2.3 FT'') \<and> first_numeric_run ''1.2.3 FT'' = Some ''1.2.3''
           \<and> parse_decimal ''1.2.3'' = None"
    by (simp add: first_numeric_run_def is_sep_def float_of_string_def py_strip_def is_space_def upper_def upper_char_def
      parse_decimal_def is_digit_def parse_exp_def)
  from a convert_value_to_metric_total [of "PInt 5" "''M''"]
  have 1: "convert_value_to_metric (PInt 5) ''M'' = Inr (PFloat (Fin 5))" by blast
  from b convert_value_to_metric_total [of "PObj 0" "''M''"]
  have 2: "convert_value_to_metric (PObj 0) ''M'' = Inr (PObj 0)" by blast
  from c convert_value_to_metric_total [of "PStr ''abc''" "''M''"]
  have 3: "convert_value_to_metric (PStr ''abc'') ''M'' = Inr (PStr ''abc'')" by blast
  from d convert_value_to_metric_total [of "PStr ''1.2.3 FT''" "''M''"]
  have 4: "convert_value_to_metric (PStr ''1.2.3 FT'') ''M'' = Inr (PStr ''1.2.3'')" by blast
  from 1 2 3 4 show ?thesis by blast
qed

text \<open>
  C7 as the claim words it fails: \<^verbatim>\<open>1.2.3 FT\<close> is rejected by \<open>float\<close>, its
  numeric run \<^verbatim>\<open>1.2.3\<close> is rejected too, and what comes back is the run, not the
  input.
\<close>

theorem convert_value_to_metric_fallback_counterexample:
  "isl (float_of_string ''1.2.3 FT'')
   \<and> first_numeric_run ''1.2.3 FT'' = Some ''1.2.3''
   \<and> isl (float_of_string ''1.2.3'')
   \<and> convert_value_to_metric (PStr ''1.2.3 FT'') ''M'' \<noteq> Inr (PStr ''1.2.3 FT'')"
  by (simp add: convert_value_to_metric_def convert_inner_def first_numeric_run_def is_sep_def
      find_input_string_def conversionFactor_def schema_def squote_def dquote_def
      float_of_string_def py_strip_def is_space_def upper_def upper_char_def
      parse_decimal_def is_digit_def parse_exp_def)

section \<open>The FT3 entry of the schema\<close>

text \<open>
  C1 at \<^verbatim>\<open>1 FT3\<close> with output unit M3: the unit found is FT, the M3 row has no FT
  entry, the factor is the default 1, and the result is 1 and not 0.028316847.
\<close>

theorem convert_value_to_metric_FT3:
  "find_input_string ''1 FT3'' = ''FT''
   \<and> conversionFactor ''M3'' ''FT3'' = 0.028316847
   \<and> conversionFactor ''M3'' ''FT'' = 1
   \<and> convert_value_to_metric (PStr ''1 FT3'') ''M3'' = Inr (PFloat (Fin 1))"
  by (simp add: convert_value_to_metric_def convert_inner_def is_sep_def
      find_input_string_def conversionFactor_def schema_def squote_def dquote_def
      digits_val_def digit_val_def scale10_def
      float_of_string_def py_strip_def is_space_def upper_def upper_char_def
      parse_decimal_def is_digit_def parse_exp_def)

section \<open>add_to_HB_model in overwrite mode\<close>

text \<open>
  C3. In overwrite mode, for a model whose user data is None, a dict without a
  \<^verbatim>\<open>phpp\<close> entry (the empty dict included), or a dict whose \<^verbatim>\<open>phpp\<close> entry is a dict,
  \<open>add_to_HB_model\<close> returns a model whose user data has a \<^verbatim>\<open>phpp\<close> dict in which the
  key maps to the value given.
\<close>

theorem add_to_HB_model_overwrite:
  assumes "user_data m = PNone
           \<or> (\<exists>d. user_data m = PDict d
                    \<and> (map_of d ''phpp'' = None \<or> (\<exists>p. map_of d ''phpp'' = Some (PDict p))))"
  shows "\<exists>m' d' p'. add_to_HB_model m key dict ''overwrite'' = Inr m'
           \<and> user_data m' = PDict d' \<and> map_of d' ''phpp'' = Some (PDict p')
           \<and> map_of p' key = Some dict"
proof -
  consider (none) "user_data m = PNone"
    | (empty) "user_data m = PDict []"
    | (lacks) d where "user_data m = PDict d" "d \<noteq> []" "map_of d ''phpp'' = None"
    | (has) d p where "user_data m = PDict d" "d \<noteq> []" "map_of d ''phpp'' = Some (PDict p)"
    using assms by (cases "user_data m") auto
  then show ?thesis
  proof cases
    case none
    then show ?thesis by (simp add: add_to_HB_model_def)
  next
    case empty
    then show ?thesis by (simp add: add_to_HB_model_def)
  next
    case lacks
    then show ?thesis
      by (simp add: add_to_HB_model_def try_write_def try_update_phpp_def)
  next
    case has
    then show ?thesis
      by (simp add: add_to_HB_model_def try_write_def update_conv')
  qed
qed

theorem add_to_HB_model_overwrite_witness:
  "(\<exists>m' d' p'. add_to_HB_model \<lparr>display_name = ''m'', user_data = PNone\<rparr> ''k'' (PInt 1) ''overwrite'' = Inr m'
      \<and> user_data m' = PDict d' \<and> map_of d' ''phpp'' = Some (PDict p') \<and> map_of p' ''k'' = Some (PInt 1))
   \<and> (\<exists>m' d' p'. add_to_HB_model \<lparr>display_name = ''m'', user_data = PDict [(''other'', PInt 7)]\<rparr>
          ''k'' (PInt 1) ''overwrite'' = Inr m'
      \<and> user_data m' = PDict d' \<and> map_of d' ''phpp'' = Some (PDict p') \<and> map_of p' ''k'' = Some (PInt 1))
   \<and> (\<exists>m' d' p'. add_to_HB_model
          \<lparr>display_name = ''m'', user_data = PDict [(''phpp'', PDict [(''k'', PInt 0)])]\<rparr>
          ''k'' (PInt 1) ''overwrite'' = Inr m'
      \<and> user_data m' = PDict d' \<and> map_of d' ''phpp'' = Some (PDict p') \<and> map_of p' ''k'' = Some (PInt 1))"
proof -
  let ?a = "\<lparr>display_name = ''m'', user_data = PNone\<rparr>"
  let ?b = "\<lparr>display_name = ''m'', user_data = PDict [(''other'', PInt 7)]\<rparr>"
  let ?c = "\<lparr>display_name = ''m'', user_data = PDict [(''phpp'', PDict [(''k'', PInt 0)])]\<rparr>"
  have a: "user_data ?a = PNone
           \<or> (\<exists>d. user_data ?a = PDict d
                    \<and> (map_of d ''phpp'' = None \<or> (\<exists>p. map_of d ''phpp'' = Some (PDict p))))"
    by simp
  have b: "user_data ?b = PNone
           \<or> (\<exists>d. user_data ?b = PDict d
                    \<and> (map_of d ''phpp'' = None \<or> (\<exists>p. map_of d ''phpp'' = Some (PDict p))))"
    by simp
  have c: "user_data ?c = PNone
           \<or> (\<exists>d. user_data ?c = PDict d
                    \<and> (map_of d ''phpp'' = None \<or> (\<exists>p. map_of d ''phpp'' = Some (PDict p))))"
    by simp
  from add_to_HB_model_overwrite [OF a, of "''k''" "PInt 1"]
    add_to_HB_model_overwrite [OF b, of "''k''" "PInt 1"]
    add_to_HB_model_overwrite [OF c, of "''k''" "PInt 1"]
  show ?thesis by blast
qed

section \<open>add_to_HB_model and the other keys of the user data\<close>

text \<open>
  C4 at a model whose user data is \<^verbatim>\<open>{'other': 1}\<close>: the dict has no \<^verbatim>\<open>phpp\<close> entry,
  both lookups raise KeyError, and the last handler replaces the whole user data, so
  the key \<^verbatim>\<open>other\<close> is lost, in both write modes. The sibling
  \<open>add_to_hb_obj_user_data\<close> keeps it at the same input.
\<close>

theorem add_to_HB_model_drops_other_keys:
  "add_to_HB_model \<lparr>display_name = ''m'', user_data = PDict [(''other'', PInt 1)]\<rparr>
     ''k'' (PDict []) ''overwrite''
     = Inr \<lparr>display_name = ''m'', user_data = PDict [(''phpp'', PDict [(''k'', PDict [])])]\<rparr>
   \<and> add_to_HB_model \<lparr>display_name = ''m'', user_data = PDict [(''other'', PInt 1)]\<rparr>
     ''k'' (PDict []) ''update''
     = Inr \<lparr>display_name = ''m'', user_data = PDict [(''phpp'', PDict [(''k'', PDict [])])]\<rparr>
   \<and> map_of [(''phpp'', PDict [(''k'', PDict [])])] ''other'' = None
   \<and> add_to_hb_obj_user_data \<lparr>display_name = ''m'', user_data = PDict [(''other'', PInt 1)]\<rparr>
     ''k'' (PDict [])
     = Inr \<lparr>display_name = ''m'',
            user_data = PDict [(''other'', PInt 1), (''phpp'', PDict [(''k'', PDict [])])]\<rparr>"
  by (simp add: add_to_HB_model_def try_write_def try_update_phpp_def
      add_to_hb_obj_user_data_def)

section \<open>The param dict of LBT2PH_ApplyWindowShadingFactors\<close>

lemma py_float_error:
  "py_float v = Inl e \<Longrightarrow> e = TypeError \<or> e = ValueError \<or> e = OverflowError"
  by (cases v) (auto simp: float_of_string_def Let_def split: if_splits option.splits)

lemma shading_factor_Inr:
  assumes "shading_factor fs i = Inr w"
  shows "if i < length fs then py_float (fs ! i) = Inr w else w = Fin 0.75"
proof (cases "i < length fs")
  case True
  show ?thesis
  proof (cases "py_float (fs ! i)")
    case (Inl e)
    with py_float_error have "e = TypeError \<or> e = ValueError \<or> e = OverflowError" by blast
    with assms True Inl show ?thesis by (auto simp: shading_factor_def)
  next
    case (Inr f)
    with assms True show ?thesis by (simp add: shading_factor_def)
  qed
next
  case False
  with assms show ?thesis by (simp add: shading_factor_def)
qed

lemma build_param_dict_other:
  "build_param_dict ws ss i names pd = Inr pd' \<Longrightarrow> k \<notin> set names
     \<Longrightarrow> map_of pd' k = map_of pd k"
proof (induction names arbitrary: i pd)
  case Nil
  then show ?case by simp
next
  case (Cons n names)
  from Cons.prems(1) obtain w s where
    r: "build_param_dict ws ss (Suc i) names (AList.update n \<lparr>winter = w, summer = s\<rparr> pd) = Inr pd'"
    by (auto split: sum.splits)
  from Cons.prems(2) have "k \<notin> set names" "k \<noteq> n" by auto
  with Cons.IH [OF r] show ?case by (simp add: update_conv')
qed

lemma build_param_dict_last:
  "build_param_dict ws ss i names pd = Inr pd' \<Longrightarrow> j < length names
     \<Longrightarrow> names ! j \<notin> set (drop (Suc j) names)
     \<Longrightarrow> \<exists>w s. map_of pd' (names ! j) = Some \<lparr>winter = w, summer = s\<rparr>
            \<and> shading_factor ws (i + j) = Inr w \<and> shading_factor ss (i + j) = Inr s"
proof (induction names arbitrary: i j pd)
  case Nil
  then show ?case by simp
next
  case (Cons n names)
  from Cons.prems(1) obtain w s where
    w: "shading_factor ws i = Inr w" and s: "shading_factor ss i = Inr s" and
    r: "build_param_dict ws ss (Suc i) names (AList.update n \<lparr>winter = w, summer = s\<rparr> pd) = Inr pd'"
    by (auto split: sum.splits)
  show ?case
  proof (cases j)
    case 0
    with Cons.prems(3) have "n \<notin> set names" by simp
    with build_param_dict_other [OF r]
    have "map_of pd' n = Some \<lparr>winter = w, summer = s\<rparr>" by (simp add: update_conv')
    with 0 w s show ?thesis by simp
  next
    case (Suc j')
    with Cons.prems have "j' < length names" "names ! j' \<notin> set (drop (Suc j') names)" by auto
    from Cons.IH [OF r this] Suc show ?thesis by simp
  qed
qed

lemma shading_factor_accepts:
  assumes "i < length fs \<longrightarrow> \<not> isl (py_float (fs ! i))"
  shows "\<exists>w. shading_factor fs i = Inr w"
proof (cases "i < length fs")
  case True
  with assms obtain x where "py_float (fs ! i) = Inr x" by (cases "py_float (fs ! i)") auto
  with True show ?thesis by (simp add: shading_factor_def)
next
  case False
  then show ?thesis by (simp add: shading_factor_def)
qed

lemma build_param_dict_reads:
  "\<forall>j<length names. (i + j < length ws \<longrightarrow> \<not> isl (py_float (ws ! (i + j))))
                     \<and> (i + j < length ss \<longrightarrow> \<not> isl (py_float (ss ! (i + j))))
     \<Longrightarrow> \<exists>pd'. build_param_dict ws ss i names pd = Inr pd'"
proof (induction names arbitrary: i pd)
  case Nil
  then show ?case by simp
next
  case (Cons n names)
  from Cons.prems have "i < length ws \<longrightarrow> \<not> isl (py_float (ws ! i))"
    "i < length ss \<longrightarrow> \<not> isl (py_float (ss ! i))" by auto
  with shading_factor_accepts obtain w s where
    w: "shading_factor ws i = Inr w" and s: "shading_factor ss i = Inr s" by blast
  have "\<forall>j<length names. (Suc i + j < length ws \<longrightarrow> \<not> isl (py_float (ws ! (Suc i + j))))
                     \<and> (Suc i + j < length ss \<longrightarrow> \<not> isl (py_float (ss ! (Suc i + j))))"
  proof (intro allI impI)
    fix j assume "j < length names"
    then have "Suc j < length (n # names)" by simp
    with Cons.prems have "(i + Suc j < length ws \<longrightarrow> \<not> isl (py_float (ws ! (i + Suc j))))
                     \<and> (i + Suc j < length ss \<longrightarrow> \<not> isl (py_float (ss ! (i + Suc j))))"
      by blast
    then show "(Suc i + j < length ws \<longrightarrow> \<not> isl (py_float (ws ! (Suc i + j))))
                     \<and> (Suc i + j < length ss \<longrightarrow> \<not> isl (py_float (ss ! (Suc i + j))))"
      by simp
  qed
  from Cons.IH [OF this] w s show ?case by simp
qed

lemma param_dict_entries:
  assumes b: "build_param_dict ws ss 0 names [] = Inr pd"
  shows "\<forall>k. k \<notin> set names \<longrightarrow> map_of pd k = None"
    and "\<forall>i<length names. names ! i \<notin> set (drop (Suc i) names) \<longrightarrow>
           (\<exists>w s. map_of pd (names ! i) = Some \<lparr>winter = w, summer = s\<rparr>
              \<and> (if i < length ws then py_float (ws ! i) = Inr w else w = Fin 0.75)
              \<and> (if i < length ss then py_float (ss ! i) = Inr s else s = Fin 0.75))"
proof -
  show "\<forall>k. k \<notin> set names \<longrightarrow> map_of pd k = None"
    using build_param_dict_other [OF b] by simp
  show "\<forall>i<length names. names ! i \<notin> set (drop (Suc i) names) \<longrightarrow>
           (\<exists>w s. map_of pd (names ! i) = Some \<lparr>winter = w, summer = s\<rparr>
              \<and> (if i < length ws then py_float (ws ! i) = Inr w else w = Fin 0.75)
              \<and> (if i < length ss then py_float (ss ! i) = Inr s else s = Fin 0.75))"
  proof (intro allI impI)
    fix i assume i: "i < length names" "names ! i \<notin> set (drop (Suc i) names)"
    from build_param_dict_last [OF b i] obtain w s where
      m: "map_of pd (names ! i) = Some \<lparr>winter = w, summer = s\<rparr>"
      and w: "shading_factor ws i = Inr w" and s: "shading_factor ss i = Inr s"
      by auto
    from shading_factor_Inr [OF w] shading_factor_Inr [OF s] m
    show "\<exists>w s. map_of pd (names ! i) = Some \<lparr>winter = w, summer = s\<rparr>
              \<and> (if i < length ws then py_float (ws ! i) = Inr w else w = Fin 0.75)
              \<and> (if i < length ss then py_float (ss ! i) = Inr s else s = Fin 0.75)"
      by blast
  qed
qed

text \<open>
  C2, as the code has it. When the loop over the window names ends without an
  exception, then for every index \<open>i\<close> that is the last one with its name, the entry
  of the param dict for that name has, for winter and for summer alike, the float of
  the \<open>i\<close>-th factor when the list has one, and 0.75 when the list is too short.
\<close>

theorem param_dict_entry:
  assumes "build_param_dict ws ss 0 names [] = Inr pd"
    and "i < length names"
    and "names ! i \<notin> set (drop (Suc i) names)"
  shows "\<exists>w s. map_of pd (names ! i) = Some \<lparr>winter = w, summer = s\<rparr>
           \<and> (if i < length ws then py_float (ws ! i) = Inr w else w = Fin 0.75)
           \<and> (if i < length ss then py_float (ss ! i) = Inr s else s = Fin 0.75)"
proof -
  from build_param_dict_last [OF assms] obtain w s where
    m: "map_of pd (names ! i) = Some \<lparr>winter = w, summer = s\<rparr>"
    and w: "shading_factor ws i = Inr w" and s: "shading_factor ss i = Inr s"
    by auto
  from shading_factor_Inr [OF w] shading_factor_Inr [OF s] m show ?thesis by blast
qed

theorem param_dict_entry_witness:
  "build_param_dict [PFloat (Fin 0.5)] [PFloat (Fin 0.25), PInt 1] 0 [''A'', ''B''] []
     = Inr [(''A'', \<lparr>winter = Fin 0.5, summer = Fin 0.25\<rparr>),
            (''B'', \<lparr>winter = Fin 0.75, summer = Fin 1\<rparr>)]
   \<and> (\<exists>w s. map_of [(''A'', \<lparr>winter = Fin 0.5, summer = Fin 0.25\<rparr>),
                       (''B'', \<lparr>winter = Fin 0.75, summer = Fin 1\<rparr>)] ([''A'', ''B''] ! 1)
              = Some \<lparr>winter = w, summer = s\<rparr>
          \<and> (if 1 < length [PFloat (Fin 0.5)] then py_float ([PFloat (Fin 0.5)] ! 1) = Inr w
              else w = Fin 0.75)
          \<and> (if 1 < length [PFloat (Fin 0.25), PInt 1]
              then py_float ([PFloat (Fin 0.25), PInt 1] ! 1) = Inr s else s = Fin 0.75))"
proof -
  have b: "build_param_dict [PFloat (Fin 0.5)] [PFloat (Fin 0.25), PInt 1] 0 [''A'', ''B''] []
     = Inr [(''A'', \<lparr>winter = Fin 0.5, summer = Fin 0.25\<rparr>),
            (''B'', \<lparr>winter = Fin 0.75, summer = Fin 1\<rparr>)]"
    by (simp add: shading_factor_def float_overflows_def)
  have l: "1 < length [''A'', ''B'']" by simp
  have d: "[''A'', ''B''] ! 1 \<notin> set (drop (Suc 1) [''A'', ''B''])" by simp
  from b param_dict_entry [OF b l d] show ?thesis by blast
qed

text \<open>
  C2 as the claim words it, for every index, fails when a name occurs twice: with the
  names A, A, one winter factor 0.5 and two summer factors, index 0 has a winter factor,
  but the entry recorded for A has the winter factor 0.75 of index 1.
\<close>

theorem param_dict_duplicate_name_counterexample:
  "build_param_dict [PFloat (Fin 0.5)] [PFloat (Fin 0.5), PFloat (Fin 0.5)] 0 [''A'', ''A''] []
     = Inr [(''A'', \<lparr>winter = Fin 0.75, summer = Fin 0.5\<rparr>)]
   \<and> 0 < length [PFloat (Fin 0.5)]
   \<and> py_float ([PFloat (Fin 0.5)] ! 0) = Inr (Fin 0.5)
   \<and> map_of [(''A'', \<lparr>winter = Fin 0.75, summer = Fin 0.5\<rparr>)] ([''A'', ''A''] ! 0)
       \<noteq> Some \<lparr>winter = Fin 0.5, summer = Fin 0.5\<rparr>"
  by (simp add: shading_factor_def)

section \<open>When the loops of LBT2PH_ApplyWindowShadingFactors raise nothing\<close>

lemma for_each_no_error:
  "(\<And>st x. x \<in> set xs \<Longrightarrow> snd (body st x) = None) \<Longrightarrow> snd (for_each body st xs) = None"
proof (induction xs arbitrary: st)
  case Nil
  then show ?case by simp
next
  case (Cons x xs)
  have "snd (body st x) = None" using Cons.prems by simp
  then obtain st1 where b: "body st x = (st1, None)" by (cases "body st x") auto
  have "snd (for_each body st1 xs) = None" using Cons.IH Cons.prems by simp
  with b show ?case by simp
qed

lemma handled_benign: "e = KeyError \<or> e = TypeError \<Longrightarrow> handled e = None"
  by (auto simp: handled_def)

lemma apply_aperture_no_error:
  assumes f: "\<forall>d e. from_dict W d = Inl e \<longrightarrow> e = KeyError \<or> e = TypeError"
    and t: "\<forall>w. \<not> isl (to_dict W w)"
  shows "snd (apply_aperture W pd h a) = None"
proof -
  let ?ud = "user_data (h_apertures h ! a)"
  have g: "\<And>e. py_getitem ?ud ''phpp'' = Inl e \<Longrightarrow> e = KeyError \<or> e = TypeError"
    by (cases ?ud) (auto split: option.splits)
  show ?thesis
  proof (cases "py_getitem ?ud ''phpp''")
    case (Inl e)
    with g handled_benign show ?thesis by (simp add: apply_aperture_def Let_def)
  next
    case (Inr d)
    show ?thesis
    proof (cases "from_dict W d")
      case (Inl e)
      with f Inr handled_benign show ?thesis by (simp add: apply_aperture_def Let_def)
    next
      case w: (Inr w)
      show ?thesis
      proof (cases "map_of pd (display_name (h_apertures h ! a))")
        case None
        with Inr w show ?thesis by (simp add: apply_aperture_def Let_def)
      next
        case (Some wf)
        from t have "\<not> isl (to_dict W (with_shading W w (winter wf) (summer wf)))" by blast
        then obtain d' where "to_dict W (with_shading W w (winter wf) (summer wf)) = Inr d'"
          by (cases "to_dict W (with_shading W w (winter wf) (summer wf))") auto
        with Inr w Some show ?thesis by (simp add: apply_aperture_def Let_def)
      qed
    qed
  qed
qed

lemma apply_room_no_error:
  assumes f: "\<forall>d e. from_dict W d = Inl e \<longrightarrow> e = KeyError \<or> e = TypeError"
    and t: "\<forall>w. \<not> isl (to_dict W w)"
  shows "\<exists>h1 nr. apply_room W pd h r = (h1, Inr nr)"
proof -
  obtain h1 nr where d: "duplicate_room h r = (h1, nr)" by (cases "duplicate_room h r") auto
  have "\<And>st x. snd (apply_face W pd st x) = None"
    unfolding apply_face_def using apply_aperture_no_error [OF f t] by (rule for_each_no_error)
  then have "snd (for_each (apply_face W pd) h1 (faces (h_rooms h1 ! nr))) = None"
    by (rule for_each_no_error)
  then obtain h2 where "for_each (apply_face W pd) h1 (faces (h_rooms h1 ! nr)) = (h2, None)"
    by (cases "for_each (apply_face W pd) h1 (faces (h_rooms h1 ! nr))") auto
  with d show ?thesis by (simp add: apply_room_def)
qed

lemma apply_rooms_no_error:
  assumes f: "\<forall>d e. from_dict W d = Inl e \<longrightarrow> e = KeyError \<or> e = TypeError"
    and t: "\<forall>w. \<not> isl (to_dict W w)"
  shows "\<exists>h1 out. apply_rooms W pd h rs acc = (h1, Inr out) \<and> length out = length acc + length rs"
proof (induction rs arbitrary: h acc)
  case Nil
  then show ?case by simp
next
  case (Cons r rs)
  from apply_room_no_error [OF f t] obtain h1 nr where a: "apply_room W pd h r = (h1, Inr nr)"
    by blast
  from Cons.IH [of h1 "acc @ [nr]"] a show ?case by auto
qed

lemma zero_warnings_no_mismatch: "LengthMismatch \<notin> set (zero_warnings pd)"
  by (auto simp: zero_warnings_def)

section \<open>The window lists of LBT2PH_CreateWindowReveals\<close>

lemma for_each_collect:
  assumes step: "\<And>st x st' e. I st \<Longrightarrow> body st x = (st', e)
                   \<Longrightarrow> I st' \<and> (e = None \<longrightarrow> out st' = out st @ g x)"
  shows "I st \<Longrightarrow> for_each body st xs = (st', e)
           \<Longrightarrow> I st' \<and> (e = None \<longrightarrow> out st' = out st @ concat (map g xs))"
proof (induction xs arbitrary: st)
  case Nil
  then show ?case by simp
next
  case (Cons x xs)
  obtain st1 e1 where b: "body st x = (st1, e1)" by (cases "body st x") auto
  from step [OF Cons.prems(1) b] have i1: "I st1" and o1: "e1 = None \<longrightarrow> out st1 = out st @ g x"
    by auto
  show ?case
  proof (cases e1)
    case None
    with b Cons.prems(2) have "for_each body st1 xs = (st', e)" by simp
    from Cons.IH [OF i1 this] o1 None show ?thesis by simp
  next
    case (Some err)
    with b Cons.prems(2) have "st' = st1" "e = Some err" by auto
    with i1 show ?thesis by simp
  qed
qed

lemma reveal_aperture_step:
  assumes "aligned st" and "reveal_aperture W h st a = (st', e)"
  shows "aligned st' \<and> (e = None \<longrightarrow> windows st' = windows st @ win_list W h a)"
  using assms
  by (auto simp: reveal_aperture_def Let_def aligned_def windows_def win_list_def window_of_def
      handled_def split: sum.splits if_splits)

lemma reveal_face_step:
  assumes "aligned st" and "reveal_face W ff h st f = (st', e)"
  shows "aligned st' \<and> (e = None \<longrightarrow>
           windows st' = windows st @ concat (map (win_list W h) (apertures (h_faces h ! f))))"
proof -
  let ?fc = "h_faces h ! f"
  show ?thesis
  proof (cases "ff (punched_geometry ?fc)")
    case (Inl x)
    with assms show ?thesis by (auto simp: reveal_face_def Let_def)
  next
    case p: (Inr p)
    show ?thesis
    proof (cases "ff (geometry ?fc)")
      case (Inl x)
      with assms p show ?thesis by (auto simp: reveal_face_def Let_def aligned_def)
    next
      case g: (Inr g)
      let ?st2 = "st\<lparr>envelope_surfaces_punched := envelope_surfaces_punched st @ [p],
                      envelope_surfaces_out := envelope_surfaces_out st @ [g]\<rparr>"
      have a2: "aligned ?st2" using assms(1) by (simp add: aligned_def)
      have w2: "windows ?st2 = windows st" by (simp add: windows_def)
      show ?thesis
      proof (cases "apertures ?fc = []")
        case True
        with assms p g a2 w2 show ?thesis by (auto simp: reveal_face_def Let_def aligned_def windows_def)
      next
        case False
        with assms(2) p g have fe: "for_each (reveal_aperture W h) ?st2 (apertures ?fc) = (st', e)"
          by (simp add: reveal_face_def Let_def)
        from for_each_collect [where I = aligned and out = windows and g = "win_list W h"
            and body = "reveal_aperture W h", OF reveal_aperture_step a2 fe] w2
        show ?thesis by simp
      qed
    qed
  qed
qed


lemma reveal_room_step:
  assumes "aligned st" and "reveal_room W ff h st r = (st', e)"
  shows "aligned st' \<and> (e = None \<longrightarrow>
           windows st' = windows st
             @ concat (map (\<lambda>f. concat (map (win_list W h) (apertures (h_faces h ! f))))
                         (faces (h_rooms h ! r))))"
proof (rule for_each_collect [where I = aligned and out = windows
      and g = "\<lambda>f. concat (map (win_list W h) (apertures (h_faces h ! f)))"
      and body = "reveal_face W ff h" and st = st])
  fix s x s' e'
  assume "aligned s" "reveal_face W ff h s x = (s', e')"
  then show "aligned s' \<and> (e' = None \<longrightarrow>
     windows s' = windows s @ concat (map (win_list W h) (apertures (h_faces h ! x))))"
    by (rule reveal_face_step)
next
  show "aligned st" by fact
next
  from assms(2) show "for_each (reveal_face W ff h) st (faces (h_rooms h ! r)) = (st', e)"
    by (simp add: reveal_room_def)
qed

lemma concat_win_list: "concat (map (win_list W h) xs)
     = List.map_filter (\<lambda>a. window_of W (h_apertures h ! a)) xs"
  by (induction xs) (auto simp: win_list_def List.map_filter_simps split: option.splits)

lemma concat_concat_map: "concat (map (\<lambda>x. concat (map g (k x))) xs) = concat (map g (concat (map k xs)))"
  by (induction xs) auto

text \<open>
  C6. The lists \<^verbatim>\<open>window_names_\<close> and \<^verbatim>\<open>window_surfaces_\<close> have the same length
  whenever the component ends. When it ends without an exception, entry by entry they
  hold the name and the inset surface of the same aperture: the apertures that give a
  window, in the order room, face, aperture; an aperture without usable \<^verbatim>\<open>phpp\<close> data
  is in neither list.
\<close>

theorem window_names_surfaces_aligned:
  fixes W :: "('w, 'g, 's) windows_module" and ff :: "nat \<Rightarrow> error + 'e"
  shows "length (window_names_out (fst (CreateWindowReveals W ff h HB_rooms)))
     = length (window_surfaces_out (fst (CreateWindowReveals W ff h HB_rooms)))
   \<and> (snd (CreateWindowReveals W ff h HB_rooms) = None \<longrightarrow>
        zip (window_names_out (fst (CreateWindowReveals W ff h HB_rooms)))
            (window_surfaces_out (fst (CreateWindowReveals W ff h HB_rooms)))
          = List.map_filter (\<lambda>a. window_of W (h_apertures h ! a)) (all_apertures h HB_rooms))"
proof -
  let ?g = "\<lambda>r. concat (map (\<lambda>f. concat (map (win_list W h) (apertures (h_faces h ! f))))
                         (faces (h_rooms h ! r)))"
  obtain st e where r: "CreateWindowReveals W ff h HB_rooms = (st, e)"
    by (cases "CreateWindowReveals W ff h HB_rooms") auto
  have c: "aligned st \<and> (e = None \<longrightarrow> windows st = windows (empty_reveals :: ('g, 's, 'e) reveals)
        @ concat (map ?g HB_rooms))"
  proof (rule for_each_collect [where I = aligned and out = windows and g = ?g
        and body = "reveal_room W ff h"])
    fix s x s' e'
    assume "aligned s" "reveal_room W ff h s x = (s', e')"
    then show "aligned s' \<and> (e' = None \<longrightarrow> windows s' = windows s @ ?g x)"
      by (rule reveal_room_step)
  next
    show "aligned (empty_reveals :: ('g, 's, 'e) reveals)"
      by (simp add: aligned_def empty_reveals_def)
  next
    from r show "for_each (reveal_room W ff h) empty_reveals HB_rooms = (st, e)"
      by (simp add: CreateWindowReveals_def)
  qed
  have "concat (map ?g HB_rooms)
        = concat (map (\<lambda>f. concat (map (win_list W h) (apertures (h_faces h ! f))))
                    (concat (map (\<lambda>r. faces (h_rooms h ! r)) HB_rooms)))"
    by (rule concat_concat_map)
  also have "\<dots> = concat (map (win_list W h) (all_apertures h HB_rooms))"
    unfolding all_apertures_def by (rule concat_concat_map)
  also have "\<dots> = List.map_filter (\<lambda>a. window_of W (h_apertures h ! a)) (all_apertures h HB_rooms)"
    by (rule concat_win_list)
  finally have "concat (map ?g HB_rooms)
        = List.map_filter (\<lambda>a. window_of W (h_apertures h ! a)) (all_apertures h HB_rooms)" .
  with c r show ?thesis by (simp add: aligned_def windows_def empty_reveals_def)
qed

theorem window_names_surfaces_aligned_witness:
  "snd (CreateWindowReveals example_windows example_from_face3d example_heap [0]) = None
   \<and> zip (window_names_out (fst (CreateWindowReveals example_windows example_from_face3d
                                    example_heap [0])))
         (window_surfaces_out (fst (CreateWindowReveals example_windows example_from_face3d
                                      example_heap [0])))
       = List.map_filter (\<lambda>a. window_of example_windows (h_apertures example_heap ! a))
           (all_apertures example_heap [0])
   \<and> List.map_filter (\<lambda>a. window_of example_windows (h_apertures example_heap ! a))
           (all_apertures example_heap [0]) = [(''A'', PInt 7)]"
proof -
  have n: "snd (CreateWindowReveals example_windows example_from_face3d example_heap [0]) = None"
    by (simp add: CreateWindowReveals_def reveal_room_def reveal_face_def reveal_aperture_def
        example_heap_def example_windows_def example_from_face3d_def empty_reveals_def
        handled_def AddRange_def)
  have m: "List.map_filter (\<lambda>a. window_of example_windows (h_apertures example_heap ! a))
           (all_apertures example_heap [0]) = [(''A'', PInt 7)]"
    by (simp add: all_apertures_def window_of_def example_heap_def example_windows_def
        List.map_filter_simps)
  from n m window_names_surfaces_aligned [of example_windows example_from_face3d
      example_heap "[0]"]
  show ?thesis by blast
qed

section \<open>duplicate() and the loops only add to the store\<close>

lemma take_length_eq_iff: "take (length xs) ys = xs \<longleftrightarrow> (\<exists>zs. ys = xs @ zs)"
  by (metis append_eq_conv_conj append_take_drop_id)

lemma duplicate_apertures_frame:
  "duplicate_apertures h as = (h', as') \<Longrightarrow>
     h_rooms h' = h_rooms h \<and> h_faces h' = h_faces h
     \<and> (\<exists>new. h_apertures h' = h_apertures h @ new)
     \<and> (\<forall>a\<in>set as'. length (h_apertures h) \<le> a \<and> a < length (h_apertures h'))"
proof (induction as arbitrary: h h' as')
  case Nil
  then show ?case by simp
next
  case (Cons a as)
  let ?h1 = "h\<lparr>h_apertures := h_apertures h @ [h_apertures h ! a]\<rparr>"
  obtain h2 as2 where d: "duplicate_apertures ?h1 as = (h2, as2)"
    by (cases "duplicate_apertures ?h1 as") auto
  with Cons.prems have e: "h' = h2" "as' = length (h_apertures h) # as2"
    by (auto simp: duplicate_aperture_def)
  from Cons.IH [OF d] e show ?case by auto
qed

lemma duplicate_face_frame:
  assumes "duplicate_face h f = (h', f')"
  shows "h_rooms h' = h_rooms h \<and> f' = length (h_faces h)
     \<and> (\<exists>fc. h_faces h' = h_faces h @ [fc]
              \<and> fresh_apertures (length (h_apertures h)) (length (h_apertures h')) fc)
     \<and> (\<exists>new. h_apertures h' = h_apertures h @ new)"
proof -
  obtain h1 aps where d: "duplicate_apertures h (apertures (h_faces h ! f)) = (h1, aps)"
    by (cases "duplicate_apertures h (apertures (h_faces h ! f))") auto
  with assms have e: "h' = h1\<lparr>h_faces := h_faces h1 @ [(h_faces h ! f)\<lparr>apertures := aps\<rparr>]\<rparr>"
    "f' = length (h_faces h1)"
    by (auto simp: duplicate_face_def Let_def)
  from duplicate_apertures_frame [OF d] e show ?thesis
    by (auto simp: fresh_apertures_def)
qed

lemma fresh_apertures_mono:
  "fresh_apertures lo hi fc \<Longrightarrow> lo' \<le> lo \<Longrightarrow> hi \<le> hi' \<Longrightarrow> fresh_apertures lo' hi' fc"
  by (fastforce simp: fresh_apertures_def)

lemma duplicate_faces_frame:
  "duplicate_faces h fs = (h', fs') \<Longrightarrow>
     h_rooms h' = h_rooms h
     \<and> (\<exists>newf. h_faces h' = h_faces h @ newf
          \<and> (\<forall>fc\<in>set newf. fresh_apertures (length (h_apertures h)) (length (h_apertures h')) fc))
     \<and> (\<forall>f\<in>set fs'. length (h_faces h) \<le> f \<and> f < length (h_faces h'))
     \<and> (\<exists>new. h_apertures h' = h_apertures h @ new)"
proof (induction fs arbitrary: h h' fs')
  case Nil
  then show ?case by simp
next
  case (Cons f fs)
  obtain h1 f1 where d1: "duplicate_face h f = (h1, f1)" by (cases "duplicate_face h f") auto
  obtain h2 fs2 where d2: "duplicate_faces h1 fs = (h2, fs2)"
    by (cases "duplicate_faces h1 fs") auto
  from Cons.prems d1 d2 have e: "h' = h2" "fs' = f1 # fs2" by auto
  from duplicate_face_frame [OF d1] obtain fc new1 where
    a1: "h_rooms h1 = h_rooms h" "f1 = length (h_faces h)" "h_faces h1 = h_faces h @ [fc]"
      "fresh_apertures (length (h_apertures h)) (length (h_apertures h1)) fc"
      "h_apertures h1 = h_apertures h @ new1"
    by blast
  from Cons.IH [OF d2] obtain newf new2 where
    a2: "h_rooms h2 = h_rooms h1" "h_faces h2 = h_faces h1 @ newf"
      "\<forall>fc\<in>set newf. fresh_apertures (length (h_apertures h1)) (length (h_apertures h2)) fc"
      "\<forall>f\<in>set fs2. length (h_faces h1) \<le> f \<and> f < length (h_faces h2)"
      "h_apertures h2 = h_apertures h1 @ new2"
    by blast
  have r: "h_rooms h' = h_rooms h" using a1 a2 e by simp
  have f: "h_faces h' = h_faces h @ (fc # newf)" using a1 a2 e by simp
  have fr: "\<forall>x\<in>set (fc # newf).
      fresh_apertures (length (h_apertures h)) (length (h_apertures h')) x"
  proof
    fix x assume "x \<in> set (fc # newf)"
    then consider "x = fc" | "x \<in> set newf" by auto
    then show "fresh_apertures (length (h_apertures h)) (length (h_apertures h')) x"
    proof cases
      case 1
      with a1(4) a2(5) e show ?thesis by (auto intro: fresh_apertures_mono)
    next
      case 2
      with a2(3) have "fresh_apertures (length (h_apertures h1)) (length (h_apertures h2)) x"
        by blast
      with a1(5) e show ?thesis by (auto intro: fresh_apertures_mono)
    qed
  qed
  have i: "\<forall>f\<in>set fs'. length (h_faces h) \<le> f \<and> f < length (h_faces h')"
    using a1 a2 e by auto
  have ap: "h_apertures h' = h_apertures h @ (new1 @ new2)" using a1 a2 e by simp
  from r f fr i ap show ?case by blast
qed

lemma duplicate_room_frame:
  assumes "duplicate_room h r = (h', nr)"
  shows "nr = length (h_rooms h)
     \<and> (\<exists>rm. h_rooms h' = h_rooms h @ [rm]
           \<and> (\<forall>f\<in>set (faces rm). length (h_faces h) \<le> f \<and> f < length (h_faces h')))
     \<and> (\<exists>newf. h_faces h' = h_faces h @ newf
          \<and> (\<forall>fc\<in>set newf. fresh_apertures (length (h_apertures h)) (length (h_apertures h')) fc))
     \<and> (\<exists>new. h_apertures h' = h_apertures h @ new)"
proof -
  obtain h1 fs where d: "duplicate_faces h (faces (h_rooms h ! r)) = (h1, fs)"
    by (cases "duplicate_faces h (faces (h_rooms h ! r))") auto
  with assms have e: "h' = h1\<lparr>h_rooms := h_rooms h1 @ [(h_rooms h ! r)\<lparr>faces := fs\<rparr>]\<rparr>"
    "nr = length (h_rooms h1)"
    by (auto simp: duplicate_room_def Let_def)
  from duplicate_faces_frame [OF d] e show ?thesis by auto
qed

lemma for_each_invariant:
  assumes step: "\<And>st x st' e. x \<in> set xs \<Longrightarrow> I st \<Longrightarrow> body st x = (st', e) \<Longrightarrow> I st'"
  shows "I st \<Longrightarrow> for_each body st xs = (st', e) \<Longrightarrow> I st'"
  using step
proof (induction xs arbitrary: st)
  case Nil
  then show ?case by simp
next
  case (Cons x xs)
  obtain st1 e1 where b: "body st x = (st1, e1)" by (cases "body st x") auto
  have i1: "I st1" using Cons.prems(3) [of x st st1 e1] Cons.prems(1) b by simp
  show ?case
  proof (cases e1)
    case None
    with b Cons.prems(2) have f: "for_each body st1 xs = (st', e)" by simp
    show ?thesis
    proof (rule Cons.IH [OF i1 f])
      fix y s s' e'
      assume "y \<in> set xs" "I s" "body s y = (s', e')"
      then show "I s'" using Cons.prems(3) [of y s s' e'] by simp
    qed
  next
    case (Some err)
    with b Cons.prems(2) have "st' = st1" by simp
    with i1 show ?thesis by simp
  qed
qed

lemma apply_aperture_frame:
  assumes "n \<le> a" and "same_below n h0 h" and "apply_aperture W pd h a = (h', e)"
  shows "same_below n h0 h'"
  using assms
  by (auto simp: apply_aperture_def Let_def same_below_def
      split: sum.splits option.splits)

lemma apply_face_frame:
  assumes fr: "\<forall>a\<in>set (apertures (h_faces h0 ! f)). n \<le> a"
    and s: "same_below n h0 h" and a: "apply_face W pd h f = (h', e)"
  shows "same_below n h0 h'"
proof (rule for_each_invariant [where I = "same_below n h0" and body = "apply_aperture W pd"
      and xs = "apertures (h_faces h0 ! f)" and st = h])
  fix st x st' e'
  assume "x \<in> set (apertures (h_faces h0 ! f))" "same_below n h0 st"
    "apply_aperture W pd st x = (st', e')"
  with fr show "same_below n h0 st'" using apply_aperture_frame by blast
next
  show "same_below n h0 h" by fact
next
  from s have "h_faces h = h_faces h0" by (simp add: same_below_def)
  with a show "for_each (apply_aperture W pd) h (apertures (h_faces h0 ! f)) = (h', e)"
    by (simp add: apply_face_def)
qed

lemma apply_room_frame:
  assumes "apply_room W pd h r = (h', res)"
  shows "unchanged h h' \<and> length (h_rooms h') = Suc (length (h_rooms h))
         \<and> (\<forall>nr. res = Inr nr \<longrightarrow> nr = length (h_rooms h))"
proof -
  obtain h1 nr where d: "duplicate_room h r = (h1, nr)" by (cases "duplicate_room h r") auto
  from duplicate_room_frame [OF d] obtain rm newf new where
    nr: "nr = length (h_rooms h)" and
    rm: "h_rooms h1 = h_rooms h @ [rm]"
      "\<forall>f\<in>set (faces rm). length (h_faces h) \<le> f \<and> f < length (h_faces h1)" and
    nf: "h_faces h1 = h_faces h @ newf"
      "\<forall>fc\<in>set newf. fresh_apertures (length (h_apertures h)) (length (h_apertures h1)) fc" and
    na: "h_apertures h1 = h_apertures h @ new"
    by blast
  let ?n = "length (h_apertures h)"
  let ?fs = "faces (h_rooms h1 ! nr)"
  have fs: "?fs = faces rm" using nr rm by simp
  have fresh: "\<forall>a\<in>set (apertures (h_faces h1 ! f)). ?n \<le> a" if "f \<in> set ?fs" for f
  proof -
    from that fs rm(2) have b: "length (h_faces h) \<le> f" "f < length (h_faces h1)" by auto
    with nf(1) have "h_faces h1 ! f = newf ! (f - length (h_faces h))" "f - length (h_faces h) < length newf"
      by (auto simp: nth_append)
    then have "h_faces h1 ! f \<in> set newf" by (metis nth_mem)
    with nf(2) show ?thesis by (auto simp: fresh_apertures_def)
  qed
  obtain h2 e where l: "for_each (apply_face W pd) h1 ?fs = (h2, e)"
    by (cases "for_each (apply_face W pd) h1 ?fs") auto
  have sb: "same_below ?n h1 h2"
  proof (rule for_each_invariant [where I = "same_below ?n h1" and body = "apply_face W pd"
        and xs = ?fs and st = h1])
    fix st x st' e'
    assume "x \<in> set ?fs" "same_below ?n h1 st" "apply_face W pd st x = (st', e')"
    with fresh show "same_below ?n h1 st'" using apply_face_frame by blast
  next
    show "same_below ?n h1 h1" by (simp add: same_below_def)
  next
    show "for_each (apply_face W pd) h1 ?fs = (h2, e)" by fact
  qed
  from assms d l have h': "h' = h2" and res: "res = (case e of None \<Rightarrow> Inr nr | Some x \<Rightarrow> Inl x)"
    by (auto simp: apply_room_def split: option.splits)
  from sb rm nf na have "unchanged h h2" by (simp add: same_below_def unchanged_def)
  moreover from sb rm have "length (h_rooms h2) = Suc (length (h_rooms h))"
    by (simp add: same_below_def)
  moreover from res nr have "\<forall>x. res = Inr x \<longrightarrow> x = length (h_rooms h)"
    by (auto split: option.splits)
  ultimately show ?thesis using h' by simp
qed

lemma unchanged_refl: "unchanged h h"
  by (simp add: unchanged_def)

lemma unchanged_trans: "unchanged h1 h2 \<Longrightarrow> unchanged h2 h3 \<Longrightarrow> unchanged h1 h3"
  unfolding unchanged_def take_length_eq_iff by auto

lemma apply_rooms_frame:
  "apply_rooms W pd h rs acc = (h', res) \<Longrightarrow>
     unchanged h h'
     \<and> (\<forall>out. res = Inr out \<longrightarrow>
           out = acc @ [length (h_rooms h) ..< length (h_rooms h) + length rs])"
proof (induction rs arbitrary: h acc)
  case Nil
  then show ?case by (auto simp: unchanged_refl)
next
  case (Cons r rs)
  obtain h1 r1 where a: "apply_room W pd h r = (h1, r1)" by (cases "apply_room W pd h r") auto
  from apply_room_frame [OF a] have u: "unchanged h h1"
    and l: "length (h_rooms h1) = Suc (length (h_rooms h))"
    and n: "\<forall>nr. r1 = Inr nr \<longrightarrow> nr = length (h_rooms h)" by auto
  show ?case
  proof (cases r1)
    case (Inl e)
    with a Cons.prems have "h' = h1" "res = Inl e" by auto
    with u show ?thesis by simp
  next
    case (Inr nr)
    with a Cons.prems have "apply_rooms W pd h1 rs (acc @ [nr]) = (h', res)" by simp
    from Cons.IH [OF this] have u2: "unchanged h1 h'" and
      o: "\<forall>out. res = Inr out \<longrightarrow>
           out = (acc @ [nr]) @ [length (h_rooms h1) ..< length (h_rooms h1) + length rs]"
      by auto
    from n Inr have "nr = length (h_rooms h)" by simp
    moreover have "[length (h_rooms h) ..< length (h_rooms h) + length (r # rs)]
        = length (h_rooms h) # [Suc (length (h_rooms h)) ..< Suc (length (h_rooms h)) + length rs]"
      by (subst upt_rec) simp
    ultimately have "\<forall>out. res = Inr out \<longrightarrow>
           out = acc @ [length (h_rooms h) ..< length (h_rooms h) + length (r # rs)]"
      using o l by (simp del: upt_Suc)
    with u u2 show ?thesis by (blast intro: unchanged_trans)
  qed
qed

section \<open>What the loops write\<close>

lemma heap_aps_id: "h\<lparr>h_apertures := h_apertures h\<rparr> = h"
  by simp

lemma apply_aperture_ok:
  assumes "apply_aperture W pd h a = (h', None)"
  shows "h' = h\<lparr>h_apertures := (h_apertures h)[a := shaded W pd (h_apertures h ! a)]\<rparr>"
proof -
  let ?ap = "h_apertures h ! a"
  show ?thesis
  proof (cases "py_getitem (user_data ?ap) ''phpp''")
    case (Inl e)
    with assms show ?thesis by (simp add: apply_aperture_def Let_def shaded_def)
  next
    case d: (Inr d)
    show ?thesis
    proof (cases "from_dict W d")
      case (Inl e)
      with assms d show ?thesis by (simp add: apply_aperture_def Let_def shaded_def)
    next
      case w: (Inr w)
      show ?thesis
      proof (cases "map_of pd (display_name ?ap)")
        case None
        with assms d w show ?thesis by (simp add: apply_aperture_def Let_def shaded_def)
      next
        case (Some wf)
        show ?thesis
        proof (cases "to_dict W (with_shading W w (winter wf) (summer wf))")
          case (Inl e)
          with assms d w Some show ?thesis by (simp add: apply_aperture_def Let_def)
        next
          case (Inr d')
          with assms d w Some show ?thesis
            by (auto simp: apply_aperture_def Let_def shaded_def)
        qed
      qed
    qed
  qed
qed

lemma for_each_None_Cons:
  assumes "for_each body st (x # xs) = (st', None)"
  obtains st1 where "body st x = (st1, None)" and "for_each body st1 xs = (st', None)"
proof -
  obtain st1 e1 where b: "body st x = (st1, e1)" by (cases "body st x") auto
  with assms have "e1 = None" by (cases e1) auto
  with b assms that show thesis by simp
qed

lemma apply_apertures_ok:
  "for_each (apply_aperture W pd) h as = (h', None)
     \<Longrightarrow> h' = h\<lparr>h_apertures := upd_all (shaded W pd) as (h_apertures h)\<rparr>"
proof (induction as arbitrary: h)
  case Nil
  then show ?case by (simp add: upd_all_def)
next
  case (Cons a as)
  from Cons.prems obtain h1 where
    b: "apply_aperture W pd h a = (h1, None)" and
    r: "for_each (apply_aperture W pd) h1 as = (h', None)"
    by (rule for_each_None_Cons)
  from apply_aperture_ok [OF b] Cons.IH [OF r] show ?case by (simp add: upd_all_def)
qed

lemma apply_faces_ok:
  "for_each (apply_face W pd) h fs = (h', None)
     \<Longrightarrow> h' = h\<lparr>h_apertures :=
                 upd_all (shaded W pd) (concat (map (\<lambda>f. apertures (h_faces h ! f)) fs))
                   (h_apertures h)\<rparr>"
proof (induction fs arbitrary: h)
  case Nil
  then show ?case by (simp add: upd_all_def)
next
  case (Cons f fs)
  from Cons.prems obtain h1 where
    b: "apply_face W pd h f = (h1, None)" and
    r: "for_each (apply_face W pd) h1 fs = (h', None)"
    by (rule for_each_None_Cons)
  from b have h1: "h1 = h\<lparr>h_apertures :=
      upd_all (shaded W pd) (apertures (h_faces h ! f)) (h_apertures h)\<rparr>"
    unfolding apply_face_def by (rule apply_apertures_ok)
  from Cons.IH [OF r] h1 show ?case by (simp add: upd_all_def)
qed

lemma upd_all_length: "length (upd_all f as xs) = length xs"
  by (induction as arbitrary: xs) (auto simp: upd_all_def)

lemma upd_all_nth:
  "distinct as \<Longrightarrow> a < length xs
     \<Longrightarrow> upd_all f as xs ! a = (if a \<in> set as then f (xs ! a) else xs ! a)"
proof (induction as arbitrary: xs)
  case Nil
  then show ?case by (simp add: upd_all_def)
next
  case (Cons b as)
  have u: "upd_all f (b # as) xs = upd_all f as (xs[b := f (xs ! b)])"
    by (simp add: upd_all_def)
  from Cons.prems have d: "distinct as" "b \<notin> set as" by auto
  from Cons.prems have l: "a < length (xs[b := f (xs ! b)])" by simp
  from Cons.IH [OF d(1) l] u d(2) Cons.prems(2) show ?case
    by (cases "a = b") auto
qed

section \<open>The new room reads like the room it copies\<close>

lemma map_nth_append_upt:
  "map (\<lambda>a. (xs @ ys) ! a) [length xs ..< length xs + length ys] = ys"
  by (rule nth_equalityI) (auto simp: nth_append)

lemma duplicate_apertures_closed:
  "\<forall>a\<in>set as. a < length (h_apertures h) \<Longrightarrow>
     duplicate_apertures h as =
       (h\<lparr>h_apertures := h_apertures h @ map (\<lambda>a. h_apertures h ! a) as\<rparr>,
        [length (h_apertures h) ..< length (h_apertures h) + length as])"
proof (induction as arbitrary: h)
  case Nil
  then show ?case by simp
next
  case (Cons a as)
  let ?h1 = "h\<lparr>h_apertures := h_apertures h @ [h_apertures h ! a]\<rparr>"
  from Cons.prems have w1: "\<forall>b\<in>set as. b < length (h_apertures ?h1)" by auto
  from Cons.prems have m: "map (\<lambda>b. h_apertures ?h1 ! b) as = map (\<lambda>b. h_apertures h ! b) as"
    by (auto simp: nth_append)
  have u: "[length (h_apertures h) ..< length (h_apertures h) + length (a # as)]
      = length (h_apertures h) # [Suc (length (h_apertures h)) ..< Suc (length (h_apertures h)) + length as]"
    by (subst upt_rec) simp
  from Cons.IH [OF w1] m u show ?case
    by (simp add: duplicate_aperture_def del: upt_Suc)
qed

lemma duplicate_face_view:
  assumes w: "wf_face h f" and d: "duplicate_face h f = (h', f')"
  shows "face_view h' f' = face_view h f"
    and "distinct (apertures (h_faces h' ! f'))"
    and "wf_face h' f'"
proof -
  let ?fc = "h_faces h ! f"
  let ?n = "length (h_apertures h)"
  let ?new = "map (\<lambda>a. h_apertures h ! a) (apertures ?fc)"
  from w have wa: "\<forall>a\<in>set (apertures ?fc). a < ?n" by (simp add: wf_face_def)
  from d duplicate_apertures_closed [OF wa]
  have e: "h' = h\<lparr>h_apertures := h_apertures h @ ?new,
                  h_faces := h_faces h @ [?fc\<lparr>apertures := [?n ..< ?n + length (apertures ?fc)]\<rparr>]\<rparr>"
    "f' = length (h_faces h)"
    by (auto simp: duplicate_face_def Let_def)
  have m: "map (\<lambda>a. (h_apertures h @ ?new) ! a) [?n ..< ?n + length (apertures ?fc)] = ?new"
    using map_nth_append_upt [of "h_apertures h" ?new] by simp
  from e m show "face_view h' f' = face_view h f" by (simp add: face_view_def)
  from e show "distinct (apertures (h_faces h' ! f'))" by simp
  from e show "wf_face h' f'" by (auto simp: wf_face_def)
qed

lemma wf_face_extend:
  assumes "wf_face h f" and "h_faces h' = h_faces h @ fs" and "h_apertures h' = h_apertures h @ as"
  shows "wf_face h' f" and "face_view h' f = face_view h f"
proof -
  from assms(1) have l: "f < length (h_faces h)"
    and a: "\<forall>a\<in>set (apertures (h_faces h ! f)). a < length (h_apertures h)"
    by (auto simp: wf_face_def)
  from l assms(2) have f: "h_faces h' ! f = h_faces h ! f" by (simp add: nth_append)
  from a assms(3) have
    m: "map (\<lambda>a. h_apertures h' ! a) (apertures (h_faces h ! f))
        = map (\<lambda>a. h_apertures h ! a) (apertures (h_faces h ! f))"
    by (auto simp: nth_append)
  from l a f assms(2,3) show "wf_face h' f" by (auto simp: wf_face_def)
  from f m show "face_view h' f = face_view h f" by (simp add: face_view_def)
qed

lemma duplicate_face_fresh:
  assumes w: "wf_face h f" and d: "duplicate_face h f = (h', f')"
  shows "\<forall>a\<in>set (apertures (h_faces h' ! f')). length (h_apertures h) \<le> a"
proof -
  from duplicate_face_frame [OF d] obtain fc where
    "f' = length (h_faces h)" "h_faces h' = h_faces h @ [fc]"
    "fresh_apertures (length (h_apertures h)) (length (h_apertures h')) fc"
    by blast
  then show ?thesis by (simp add: fresh_apertures_def)
qed

lemma duplicate_faces_view:
  "\<forall>f\<in>set fs. wf_face h f \<Longrightarrow> duplicate_faces h fs = (h', fs') \<Longrightarrow>
     map (face_view h') fs' = map (face_view h) fs
     \<and> (\<forall>f\<in>set fs'. wf_face h' f)
     \<and> distinct (concat (map (\<lambda>f. apertures (h_faces h' ! f)) fs'))
     \<and> (\<forall>f\<in>set fs'. \<forall>a\<in>set (apertures (h_faces h' ! f)). length (h_apertures h) \<le> a)"
proof (induction fs arbitrary: h h' fs')
  case Nil
  then show ?case by simp
next
  case (Cons f fs)
  obtain h1 f1 where d1: "duplicate_face h f = (h1, f1)" by (cases "duplicate_face h f") auto
  obtain h2 fs2 where d2: "duplicate_faces h1 fs = (h2, fs2)"
    by (cases "duplicate_faces h1 fs") auto
  from Cons.prems(2) d1 d2 have e: "h' = h2" "fs' = f1 # fs2" by auto
  from Cons.prems(1) have wf: "wf_face h f" and wfs: "\<forall>x\<in>set fs. wf_face h x" by auto
  \<comment> \<open>the first face\<close>
  from duplicate_face_frame [OF d1] obtain fc new1 where
    x1: "h_faces h1 = h_faces h @ [fc]" "h_apertures h1 = h_apertures h @ new1"
    by blast
  note v1 = duplicate_face_view [OF wf d1]
  note l1 = duplicate_face_fresh [OF wf d1]
  \<comment> \<open>the other faces, from the store after the first\<close>
  have wfs1: "\<forall>x\<in>set fs. wf_face h1 x"
    using wfs wf_face_extend(1) [OF _ x1] by blast
  have vs1: "map (face_view h1) fs = map (face_view h) fs"
    using wfs wf_face_extend(2) [OF _ x1] by simp
  from duplicate_faces_frame [OF d2] obtain newf new2 where
    x2: "h_faces h2 = h_faces h1 @ newf" "h_apertures h2 = h_apertures h1 @ new2"
    by blast
  from Cons.IH [OF wfs1 d2] have
    i1: "map (face_view h2) fs2 = map (face_view h1) fs" and
    i2: "\<forall>x\<in>set fs2. wf_face h2 x" and
    i3: "distinct (concat (map (\<lambda>x. apertures (h_faces h2 ! x)) fs2))" and
    i4: "\<forall>x\<in>set fs2. \<forall>a\<in>set (apertures (h_faces h2 ! x)). length (h_apertures h1) \<le> a"
    by auto
  \<comment> \<open>the first face in the last store\<close>
  note s1 = wf_face_extend [OF v1(3) x2]
  from v1(3) x2(1) have f1: "h_faces h2 ! f1 = h_faces h1 ! f1"
    by (simp add: wf_face_def nth_append)
  from v1(3) have u1: "\<forall>a\<in>set (apertures (h_faces h1 ! f1)). a < length (h_apertures h1)"
    by (simp add: wf_face_def)
  have a: "map (face_view h') fs' = map (face_view h) (f # fs)"
    using e s1(2) v1(1) i1 vs1 by simp
  have b: "\<forall>x\<in>set fs'. wf_face h' x" using e s1(1) i2 by simp
  have c: "distinct (concat (map (\<lambda>x. apertures (h_faces h' ! x)) fs'))"
    using e f1 v1(2) i3 i4 u1 by fastforce
  have d: "\<forall>x\<in>set fs'. \<forall>a\<in>set (apertures (h_faces h' ! x)). length (h_apertures h) \<le> a"
    using e f1 l1 i4 x1(2) by fastforce
  from a b c d show ?case by blast
qed

lemma duplicate_room_view:
  assumes w: "wf_room h r" and d: "duplicate_room h r = (h', nr)"
  shows "room_view h' nr = room_view h r"
    and "wf_room h' nr"
    and "distinct (concat (map (\<lambda>f. apertures (h_faces h' ! f)) (faces (h_rooms h' ! nr))))"
proof -
  let ?rm = "h_rooms h ! r"
  obtain h1 fs where d1: "duplicate_faces h (faces ?rm) = (h1, fs)"
    by (cases "duplicate_faces h (faces ?rm)") auto
  with d have e: "h' = h1\<lparr>h_rooms := h_rooms h1 @ [?rm\<lparr>faces := fs\<rparr>]\<rparr>"
    "nr = length (h_rooms h1)"
    by (auto simp: duplicate_room_def Let_def)
  from w have wfs: "\<forall>f\<in>set (faces ?rm). wf_face h f" by (simp add: wf_room_def)
  from duplicate_faces_view [OF wfs d1] have
    v: "map (face_view h1) fs = map (face_view h) (faces ?rm)" and
    wf1: "\<forall>f\<in>set fs. wf_face h1 f" and
    di: "distinct (concat (map (\<lambda>f. apertures (h_faces h1 ! f)) fs))"
    by auto
  have fv: "face_view h' = face_view h1" using e by (simp add: face_view_def fun_eq_iff)
  have wv: "wf_face h' = wf_face h1" using e by (simp add: wf_face_def fun_eq_iff)
  from e have fr: "faces (h_rooms h' ! nr) = fs" by simp
  from fr fv v show "room_view h' nr = room_view h r" by (simp add: room_view_def)
  from fr wv wf1 e show "wf_room h' nr" by (simp add: wf_room_def)
  from fr di e show
    "distinct (concat (map (\<lambda>f. apertures (h_faces h' ! f)) (faces (h_rooms h' ! nr))))"
    by simp
qed

lemma apply_room_view:
  assumes w: "wf_room h r" and a: "apply_room W pd h r = (h2, Inr nr)"
  shows "room_view h2 nr = shaded_room W pd (room_view h r)" and "wf_room h2 nr"
proof -
  obtain h1 n1 where d: "duplicate_room h r = (h1, n1)" by (cases "duplicate_room h r") auto
  let ?fs = "faces (h_rooms h1 ! n1)"
  let ?A = "concat (map (\<lambda>f. apertures (h_faces h1 ! f)) ?fs)"
  obtain h3 e where l: "for_each (apply_face W pd) h1 ?fs = (h3, e)"
    by (cases "for_each (apply_face W pd) h1 ?fs") auto
  from a d l have e: "e = None" and n: "n1 = nr" and h: "h3 = h2"
    by (auto simp: apply_room_def split: option.splits)
  from l e h have l': "for_each (apply_face W pd) h1 ?fs = (h2, None)" by simp
  have h2: "h2 = h1\<lparr>h_apertures := upd_all (shaded W pd) ?A (h_apertures h1)\<rparr>"
    using l' by (rule apply_faces_ok)
  note v = duplicate_room_view [OF w d]
  from v(2) have wfs: "\<forall>f\<in>set ?fs. wf_face h1 f" by (simp add: wf_room_def)
  have fv: "face_view h2 f = (\<lambda>(g, p, aps). (g, p, map (shaded W pd) aps)) (face_view h1 f)"
    if f: "f \<in> set ?fs" for f
  proof -
    have "h_apertures h2 ! x = shaded W pd (h_apertures h1 ! x)"
      if x: "x \<in> set (apertures (h_faces h1 ! f))" for x
    proof -
      from x f have xa: "x \<in> set ?A" by auto
      from x f wfs have xl: "x < length (h_apertures h1)" by (auto simp: wf_face_def)
      from upd_all_nth [OF v(3) xl, of "shaded W pd"] xa h2 show ?thesis by simp
    qed
    with h2 show ?thesis by (simp add: face_view_def)
  qed
  from h2 have r2: "h_rooms h2 = h_rooms h1" "h_faces h2 = h_faces h1" by simp_all
  from r2 fv have "room_view h2 n1 = shaded_room W pd (room_view h1 n1)"
    by (simp add: room_view_def shaded_room_def)
  with v(1) n show "room_view h2 nr = shaded_room W pd (room_view h r)" by simp
  from v(2) h2 n show "wf_room h2 nr"
    by (simp add: wf_room_def wf_face_def upd_all_length)
qed

lemma unchanged_view:
  assumes u: "unchanged h h'" and w: "wf_room h r"
  shows "wf_room h' r" and "room_view h' r = room_view h r"
proof -
  from u obtain rs fs as where
    x: "h_rooms h' = h_rooms h @ rs" "h_faces h' = h_faces h @ fs"
      "h_apertures h' = h_apertures h @ as"
    unfolding unchanged_def take_length_eq_iff by blast
  from w have l: "r < length (h_rooms h)"
    and wfs: "\<forall>f\<in>set (faces (h_rooms h ! r)). wf_face h f"
    by (auto simp: wf_room_def)
  from l x(1) have r: "h_rooms h' ! r = h_rooms h ! r" by (simp add: nth_append)
  from wfs wf_face_extend(1) [OF _ x(2,3)] have "\<forall>f\<in>set (faces (h_rooms h ! r)). wf_face h' f"
    by blast
  with l r x(1) show "wf_room h' r" by (simp add: wf_room_def)
  from wfs wf_face_extend(2) [OF _ x(2,3)]
  have "map (face_view h') (faces (h_rooms h ! r)) = map (face_view h) (faces (h_rooms h ! r))"
    by simp
  with r show "room_view h' r = room_view h r" by (simp add: room_view_def)
qed

lemma apply_rooms_view:
  "\<forall>r\<in>set rs. wf_room h r \<Longrightarrow> apply_rooms W pd h rs acc = (h', Inr out) \<Longrightarrow>
     \<exists>new. out = acc @ new
       \<and> map (room_view h') new = map (\<lambda>r. shaded_room W pd (room_view h r)) rs"
proof (induction rs arbitrary: h acc)
  case Nil
  then show ?case by simp
next
  case (Cons r rs)
  obtain h1 r1 where a: "apply_room W pd h r = (h1, r1)" by (cases "apply_room W pd h r") auto
  with Cons.prems(2) obtain nr where r1: "r1 = Inr nr" by (cases r1) auto
  with a Cons.prems(2) have rest: "apply_rooms W pd h1 rs (acc @ [nr]) = (h', Inr out)" by simp
  from Cons.prems(1) have w: "wf_room h r" and ws: "\<forall>x\<in>set rs. wf_room h x" by auto
  from a r1 have a': "apply_room W pd h r = (h1, Inr nr)" by simp
  note v = apply_room_view [OF w a']
  from apply_room_frame [OF a] have u: "unchanged h h1" by simp
  from ws unchanged_view(1) [OF u] have ws1: "\<forall>x\<in>set rs. wf_room h1 x" by blast
  from ws unchanged_view(2) [OF u]
  have vs1: "map (\<lambda>x. shaded_room W pd (room_view h1 x)) rs
             = map (\<lambda>x. shaded_room W pd (room_view h x)) rs"
    by simp
  from Cons.IH [OF ws1 rest] obtain new where
    n: "out = (acc @ [nr]) @ new"
      "map (room_view h') new = map (\<lambda>x. shaded_room W pd (room_view h1 x)) rs"
    by blast
  from apply_rooms_frame [OF rest] have u2: "unchanged h1 h'" by simp
  from unchanged_view(2) [OF u2 v(2)] v(1)
  have "room_view h' nr = shaded_room W pd (room_view h r)" by simp
  with n vs1 have "out = acc @ (nr # new)
      \<and> map (room_view h') (nr # new) = map (\<lambda>x. shaded_room W pd (room_view h x)) (r # rs)"
    by simp
  then show ?case by blast
qed

section \<open>LBT2PH_ApplyWindowShadingFactors works on copies\<close>

text \<open>
  C5. When the component ends, with or without an exception, every object that was in
  the store before it ran is unchanged; so every well-formed input room reads as
  before, face by face and aperture by aperture, user data included. When it ends
  without an exception, the rooms of \<^verbatim>\<open>HB_rooms_\<close> are new objects, one for each input
  room in the order of the input, and each reads like the input room it duplicates,
  but for the \<^verbatim>\<open>phpp\<close> user data that the component wrote to the apertures of the copy.
\<close>

theorem rooms_are_copies:
  "unchanged h (fst (snd (ApplyWindowShadingFactors W h HB_rooms names ws ss)))
   \<and> ((\<forall>r\<in>set HB_rooms. wf_room h r) \<longrightarrow>
        map (room_view (fst (snd (ApplyWindowShadingFactors W h HB_rooms names ws ss)))) HB_rooms
          = map (room_view h) HB_rooms)
   \<and> (\<forall>pd out. snd (snd (ApplyWindowShadingFactors W h HB_rooms names ws ss)) = Inr (pd, out)
        \<longrightarrow> out = [length (h_rooms h) ..< length (h_rooms h) + length HB_rooms]
          \<and> ((\<forall>r\<in>set HB_rooms. wf_room h r) \<longrightarrow>
               map (room_view (fst (snd (ApplyWindowShadingFactors W h HB_rooms names ws ss)))) out
                 = map (\<lambda>r. shaded_room W pd (room_view h r)) HB_rooms))"
proof -
  let ?R = "ApplyWindowShadingFactors W h HB_rooms names ws ss"
  let ?h' = "fst (snd ?R)"
  have u: "unchanged h ?h'"
  proof (cases "build_param_dict ws ss 0 names []")
    case (Inl e)
    then show ?thesis by (simp add: ApplyWindowShadingFactors_def Let_def unchanged_refl)
  next
    case (Inr pd)
    obtain h1 res where a: "apply_rooms W pd h HB_rooms [] = (h1, res)"
      by (cases "apply_rooms W pd h HB_rooms []") auto
    from apply_rooms_frame [OF a] Inr a show ?thesis
      by (cases res) (auto simp: ApplyWindowShadingFactors_def Let_def)
  qed
  have i: "(\<forall>r\<in>set HB_rooms. wf_room h r) \<longrightarrow>
        map (room_view ?h') HB_rooms = map (room_view h) HB_rooms"
    using unchanged_view(2) [OF u] by simp
  have o: "out = [length (h_rooms h) ..< length (h_rooms h) + length HB_rooms]
          \<and> ((\<forall>r\<in>set HB_rooms. wf_room h r) \<longrightarrow>
               map (room_view ?h') out = map (\<lambda>r. shaded_room W pd (room_view h r)) HB_rooms)"
    if r: "snd (snd ?R) = Inr (pd, out)" for pd out
  proof -
    from r have b: "build_param_dict ws ss 0 names [] = Inr pd"
      by (auto simp: ApplyWindowShadingFactors_def Let_def split: sum.splits prod.splits)
    obtain h1 res where a: "apply_rooms W pd h HB_rooms [] = (h1, res)"
      by (cases "apply_rooms W pd h HB_rooms []") auto
    with r b have res: "res = Inr out" and h1: "?h' = h1"
      by (auto simp: ApplyWindowShadingFactors_def Let_def split: sum.splits)
    from apply_rooms_frame [OF a] res
    have f: "out = [length (h_rooms h) ..< length (h_rooms h) + length HB_rooms]" by simp
    have "map (room_view ?h') out = map (\<lambda>r. shaded_room W pd (room_view h r)) HB_rooms"
      if w: "\<forall>r\<in>set HB_rooms. wf_room h r"
      using apply_rooms_view [OF w, of W pd "[]" h1 out] a res h1 by simp
    with f show ?thesis by blast
  qed
  from u i o show ?thesis by blast
qed

theorem rooms_are_copies_witness:
  "snd (snd (ApplyWindowShadingFactors example_windows example_heap [0] [''A'']
        [PFloat (Fin 0.5)] [PFloat (Fin 0.25)])) = Inr ([(''A'', \<lparr>winter = Fin 0.5, summer = Fin 0.25\<rparr>)], [1])
   \<and> unchanged example_heap (fst (snd (ApplyWindowShadingFactors example_windows example_heap [0] [''A'']
        [PFloat (Fin 0.5)] [PFloat (Fin 0.25)])))
   \<and> map (room_view (fst (snd (ApplyWindowShadingFactors example_windows example_heap [0] [''A'']
        [PFloat (Fin 0.5)] [PFloat (Fin 0.25)])))) [0] = map (room_view example_heap) [0]
   \<and> map (room_view (fst (snd (ApplyWindowShadingFactors example_windows example_heap [0] [''A'']
        [PFloat (Fin 0.5)] [PFloat (Fin 0.25)])))) [1]
       = map (\<lambda>r. shaded_room example_windows [(''A'', \<lparr>winter = Fin 0.5, summer = Fin 0.25\<rparr>)]
                    (room_view example_heap r)) [0]
   \<and> shaded_room example_windows [(''A'', \<lparr>winter = Fin 0.5, summer = Fin 0.25\<rparr>)] (room_view example_heap 0)
       = [(0, 1,
         [\<lparr>display_name = ''A'',
           user_data = PDict [(''phpp'',
             PDict [(''surface'', PInt 7),
                    (''shading_factor_winter'', PFloat (Fin 0.5)),
                    (''shading_factor_summer'', PFloat (Fin 0.25))])]\<rparr>,
          \<lparr>display_name = ''B'', user_data = PNone\<rparr>])]"
proof -
  have w: "\<forall>r\<in>set [0]. wf_room example_heap r"
    by (simp add: wf_room_def wf_face_def example_heap_def)
  have e: "snd (snd (ApplyWindowShadingFactors example_windows example_heap [0] [''A'']
        [PFloat (Fin 0.5)] [PFloat (Fin 0.25)])) = Inr ([(''A'', \<lparr>winter = Fin 0.5, summer = Fin 0.25\<rparr>)], [1])"
    by (simp add: ApplyWindowShadingFactors_def shading_factor_def apply_room_def
        duplicate_room_def duplicate_face_def duplicate_aperture_def apply_face_def
        apply_aperture_def example_heap_def example_windows_def handled_def Let_def)
  have s: "shaded_room example_windows [(''A'', \<lparr>winter = Fin 0.5, summer = Fin 0.25\<rparr>)] (room_view example_heap 0)
       = [(0, 1,
         [\<lparr>display_name = ''A'',
           user_data = PDict [(''phpp'',
             PDict [(''surface'', PInt 7),
                    (''shading_factor_winter'', PFloat (Fin 0.5)),
                    (''shading_factor_summer'', PFloat (Fin 0.25))])]\<rparr>,
          \<lparr>display_name = ''B'', user_data = PNone\<rparr>])]"
    by (simp add: shaded_room_def room_view_def face_view_def shaded_def example_heap_def
        example_windows_def)
  from w e s rooms_are_copies [of example_heap example_windows "[0]" "[''A'']"
      "[PFloat (Fin 0.5)]" "[PFloat (Fin 0.25)]"]
  show ?thesis by blast
qed

section \<open>The length warning of LBT2PH_ApplyWindowShadingFactors\<close>

text \<open>
  C8, as the code has it. The component adds its length warning exactly when the number
  of window names differs from the number of winter factors or of summer factors. The
  mismatch does not end the component: whenever \<open>float\<close> accepts every factor that the
  loop reads (those at an index below the number of names) and the window class raises
  nothing but the KeyError and TypeError that the component handles, the component
  ends, whether the lengths match or not, with the param dict and the output rooms.
  The dict has no entry for a name that is not given and, for every name given, the
  factors of the last index with that name, 0.75 where a list is too short. The output
  rooms are new objects, one for each input room in the order of the input, and each
  reads like its input room with the \<^verbatim>\<open>phpp\<close> data of the shaded windows written to
  its apertures.
\<close>

theorem mismatch_warning_and_outputs:
  "(LengthMismatch \<in> set (fst (ApplyWindowShadingFactors W h HB_rooms names ws ss))
      \<longleftrightarrow> length names \<noteq> length ws \<or> length names \<noteq> length ss)
   \<and> ((\<forall>i<length names. (i < length ws \<longrightarrow> \<not> isl (py_float (ws ! i)))
                          \<and> (i < length ss \<longrightarrow> \<not> isl (py_float (ss ! i))))
        \<and> (\<forall>d e. from_dict W d = Inl e \<longrightarrow> e = KeyError \<or> e = TypeError)
        \<and> (\<forall>w. \<not> isl (to_dict W w))
      \<longrightarrow> (\<exists>pd out.
             snd (snd (ApplyWindowShadingFactors W h HB_rooms names ws ss)) = Inr (pd, out)
             \<and> (\<forall>k. k \<notin> set names \<longrightarrow> map_of pd k = None)
             \<and> (\<forall>i<length names. names ! i \<notin> set (drop (Suc i) names) \<longrightarrow>
                  (\<exists>w s. map_of pd (names ! i) = Some \<lparr>winter = w, summer = s\<rparr>
                     \<and> (if i < length ws then py_float (ws ! i) = Inr w else w = Fin 0.75)
                     \<and> (if i < length ss then py_float (ss ! i) = Inr s else s = Fin 0.75)))
             \<and> out = [length (h_rooms h) ..< length (h_rooms h) + length HB_rooms]
             \<and> ((\<forall>r\<in>set HB_rooms. wf_room h r) \<longrightarrow>
                  map (room_view (fst (snd (ApplyWindowShadingFactors W h HB_rooms names ws ss))))
                      out
                    = map (\<lambda>r. shaded_room W pd (room_view h r)) HB_rooms)))"
proof -
  let ?R = "ApplyWindowShadingFactors W h HB_rooms names ws ss"
  have m: "LengthMismatch \<in> set (fst ?R)
      \<longleftrightarrow> length names \<noteq> length ws \<or> length names \<noteq> length ss"
    using zero_warnings_no_mismatch
    by (auto simp: ApplyWindowShadingFactors_def Let_def split: sum.splits prod.splits)
  have n: "\<exists>pd out. snd (snd ?R) = Inr (pd, out)
             \<and> (\<forall>k. k \<notin> set names \<longrightarrow> map_of pd k = None)
             \<and> (\<forall>i<length names. names ! i \<notin> set (drop (Suc i) names) \<longrightarrow>
                  (\<exists>w s. map_of pd (names ! i) = Some \<lparr>winter = w, summer = s\<rparr>
                     \<and> (if i < length ws then py_float (ws ! i) = Inr w else w = Fin 0.75)
                     \<and> (if i < length ss then py_float (ss ! i) = Inr s else s = Fin 0.75)))
             \<and> out = [length (h_rooms h) ..< length (h_rooms h) + length HB_rooms]
             \<and> ((\<forall>r\<in>set HB_rooms. wf_room h r) \<longrightarrow>
                  map (room_view (fst (snd ?R))) out
                    = map (\<lambda>r. shaded_room W pd (room_view h r)) HB_rooms)"
    if a: "\<forall>i<length names. (i < length ws \<longrightarrow> \<not> isl (py_float (ws ! i)))
                          \<and> (i < length ss \<longrightarrow> \<not> isl (py_float (ss ! i)))"
      and f: "\<forall>d e. from_dict W d = Inl e \<longrightarrow> e = KeyError \<or> e = TypeError"
      and t: "\<forall>w. \<not> isl (to_dict W w)"
  proof -
    from a have "\<forall>j<length names. (0 + j < length ws \<longrightarrow> \<not> isl (py_float (ws ! (0 + j))))
                     \<and> (0 + j < length ss \<longrightarrow> \<not> isl (py_float (ss ! (0 + j))))"
      by simp
    from build_param_dict_reads [OF this] obtain pd where
      pd: "build_param_dict ws ss 0 names [] = Inr pd" by blast
    from apply_rooms_no_error [OF f t, of pd h HB_rooms "[]"] obtain h1 out where
      ar: "apply_rooms W pd h HB_rooms [] = (h1, Inr out)" by auto
    from pd ar have r: "snd (snd ?R) = Inr (pd, out)" and h1: "fst (snd ?R) = h1"
      by (simp_all add: ApplyWindowShadingFactors_def Let_def)
    from apply_rooms_frame [OF ar]
    have o: "out = [length (h_rooms h) ..< length (h_rooms h) + length HB_rooms]" by simp
    have v: "map (room_view (fst (snd ?R))) out
               = map (\<lambda>r. shaded_room W pd (room_view h r)) HB_rooms"
      if w: "\<forall>r\<in>set HB_rooms. wf_room h r"
      using apply_rooms_view [OF w ar] h1 by simp
    from r param_dict_entries [OF pd] o v show ?thesis by blast
  qed
  from m n show ?thesis by blast
qed

theorem mismatch_warning_and_outputs_witness:
  "length [''A''] \<noteq> length ([] :: pyval list)
   \<and> isl (py_float (PStr ''abc''))
   \<and> LengthMismatch \<in> set (fst (ApplyWindowShadingFactors example_windows example_heap [0] [''A'']
        [] [PFloat (Fin 0.5), PStr ''abc'']))
   \<and> (\<exists>pd out.
         snd (snd (ApplyWindowShadingFactors example_windows example_heap [0] [''A'']
        [] [PFloat (Fin 0.5), PStr ''abc''])) = Inr (pd, out)
         \<and> map_of pd ''B'' = None
         \<and> map_of pd ''A'' = Some \<lparr>winter = Fin 0.75, summer = Fin 0.5\<rparr>
         \<and> out = [1]
         \<and> map (room_view (fst (snd (ApplyWindowShadingFactors example_windows example_heap [0] [''A'']
        [] [PFloat (Fin 0.5), PStr ''abc''])))) out
             = map (\<lambda>r. shaded_room example_windows pd (room_view example_heap r)) [0])"
proof -
  let ?R = "(ApplyWindowShadingFactors example_windows example_heap [0] [''A''] [] [PFloat (Fin 0.5), PStr ''abc''])"
  have l: "length [''A''] \<noteq> length ([] :: pyval list)" by simp
  have x: "isl (py_float (PStr ''abc''))"
    by (simp add: float_of_string_def py_strip_def is_space_def upper_def upper_char_def
        parse_decimal_def is_digit_def)
  have a: "\<forall>i<length [''A''].
      (i < length ([] :: pyval list) \<longrightarrow> \<not> isl (py_float ([] ! i)))
      \<and> (i < length [PFloat (Fin 0.5), PStr ''abc'']
           \<longrightarrow> \<not> isl (py_float ([PFloat (Fin 0.5), PStr ''abc''] ! i)))"
    by simp
  have f: "\<forall>d e. from_dict example_windows d = Inl e \<longrightarrow> e = KeyError \<or> e = TypeError"
    by (auto simp: example_windows_def split: pyval.splits)
  have t: "\<forall>w. \<not> isl (to_dict example_windows w)"
    by (simp add: example_windows_def)
  have w: "\<forall>r\<in>set [0]. wf_room example_heap r"
    by (simp add: wf_room_def wf_face_def example_heap_def)
  from l a f t mismatch_warning_and_outputs [of example_windows example_heap "[0]" "[''A'']"
      "[]" "[PFloat (Fin 0.5), PStr ''abc'']"]
  obtain pd out where
    m: "LengthMismatch \<in> set (fst ?R)" and
    r: "snd (snd ?R) = Inr (pd, out)" and
    k: "\<forall>k. k \<notin> set [''A''] \<longrightarrow> map_of pd k = None" and
    e: "\<forall>i<length [''A'']. [''A''] ! i \<notin> set (drop (Suc i) [''A'']) \<longrightarrow>
          (\<exists>w s. map_of pd ([''A''] ! i) = Some \<lparr>winter = w, summer = s\<rparr>
             \<and> (if i < length ([] :: pyval list) then py_float ([] ! i) = Inr w
                 else w = Fin 0.75)
             \<and> (if i < length [PFloat (Fin 0.5), PStr ''abc'']
                 then py_float ([PFloat (Fin 0.5), PStr ''abc''] ! i) = Inr s
                 else s = Fin 0.75))" and
    o: "out = [length (h_rooms example_heap) ..< length (h_rooms example_heap) + length [0::nat]]"
      and
    v: "(\<forall>r\<in>set [0]. wf_room example_heap r) \<longrightarrow>
          map (room_view (fst (snd ?R))) out
            = map (\<lambda>r. shaded_room example_windows pd (room_view example_heap r)) [0]"
    by blast
  from k have kb: "map_of pd ''B'' = None" by simp
  from e have "\<exists>w s. map_of pd ([''A''] ! 0) = Some \<lparr>winter = w, summer = s\<rparr>
             \<and> (if 0 < length ([] :: pyval list) then py_float ([] ! 0) = Inr w
                 else w = Fin 0.75)
             \<and> (if 0 < length [PFloat (Fin 0.5), PStr ''abc'']
                 then py_float ([PFloat (Fin 0.5), PStr ''abc''] ! 0) = Inr s
                 else s = Fin 0.75)"
    by simp
  then have ka: "map_of pd ''A'' = Some \<lparr>winter = Fin 0.75, summer = Fin 0.5\<rparr>" by auto
  from o have o1: "out = [1]" by (simp add: example_heap_def)
  from l x m r kb ka o1 v w show ?thesis by blast
qed

text \<open>
  C8 as the claim words it, that the component does not abort in the mismatch case,
  fails when a factor that the loop reads is not a number: with one name, the winter
  factor \<^verbatim>\<open>abc\<close> and no summer factor, the lengths differ, the warning is added, and
  \<open>float\<close> raises ValueError, which no handler of the loop catches.
\<close>

theorem mismatch_abort_counterexample:
  "fst (ApplyWindowShadingFactors example_windows example_heap [0] [''A'']
          [PStr ''abc''] []) = [LengthMismatch]
   \<and> length [''A''] \<noteq> length ([] :: pyval list)
   \<and> snd (snd (ApplyWindowShadingFactors example_windows example_heap [0] [''A'']
                 [PStr ''abc''] [])) = Inl ValueError"
  by (simp add: ApplyWindowShadingFactors_def shading_factor_def float_of_string_def
      py_strip_def is_space_def upper_def upper_char_def parse_decimal_def is_digit_def)

end
